theory Spec2Isabelle
  imports Complex_Main
begin

section \<open>A GPT-style language model (train.py)\<close>

text \<open>
  The development embeds the model classes of \<^verbatim>\<open>train.py\<close>: \<^verbatim>\<open>Head\<close>,
  \<^verbatim>\<open>MultiHeadAttention\<close>, \<^verbatim>\<open>FeedForward\<close>, \<^verbatim>\<open>Block\<close>, \<^verbatim>\<open>GPTLanguageModel\<close>
  (constructor, \<^verbatim>\<open>forward\<close>, \<^verbatim>\<open>generate\<close>) and the training loop.

  Conventions of the embedding:
  \<^item> a tensor is a record of its shape and of a function from indices to entries; an entry
    outside the shape carries no meaning and no statement below reads one;
  \<^item> float32 arithmetic is idealised as arithmetic over \<^typ>\<open>real\<close>: rounding, overflow and
    NaN propagation are not modelled. The only non-finite values that the source creates on
    purpose, the \<^verbatim>\<open>-inf\<close> of \<^verbatim>\<open>masked_fill\<close> and the NaN of a mean over no element, have
    constructors of their own;
  \<^item> every exception that the Python code or the tensor library raises on a shape, an index
    or an argument is a value \<open>Inl e\<close> of the result;
  \<^item> every random draw (initial weights, dropout masks, sampled tokens) is an explicit
    argument;
  \<^item> the module-level constants of the script are the fields of a \<open>config\<close> record.
\<close>

subsection \<open>Errors\<close>

datatype error = ZeroDivisionError | ValueError | IndexError | RuntimeError

definition bind_err :: "error + 'a \<Rightarrow> ('a \<Rightarrow> error + 'b) \<Rightarrow> error + 'b" where
  "bind_err r f = (case r of Inl e \<Rightarrow> Inl e | Inr v \<Rightarrow> f v)"

subsection \<open>Module-level constants\<close>

record config =
  block_size :: nat
  n_embd :: nat
  n_head :: nat
  n_layer :: nat
  dropout :: real
  vocab_size :: nat

subsection \<open>Tensors\<close>

record 'a tensor3 =
  dim0 :: nat
  dim1 :: nat
  dim2 :: nat
  elem3 :: "nat \<Rightarrow> nat \<Rightarrow> nat \<Rightarrow> 'a"

record 'a tensor2 =
  rows2 :: nat
  cols2 :: nat
  elem2 :: "nat \<Rightarrow> nat \<Rightarrow> 'a"

record 'a tensor1 =
  len1 :: nat
  elem1 :: "nat \<Rightarrow> 'a"

text \<open>An attention score after \<^verbatim>\<open>masked_fill\<close>: \<^verbatim>\<open>float('-inf')\<close> or a finite number.\<close>

datatype score = MinusInf | Finite real

fun exp_score :: "score \<Rightarrow> real" where
  "exp_score MinusInf = 0"
| "exp_score (Finite r) = exp r"

subsection \<open>\<^verbatim>\<open>nn.Linear\<close>, \<^verbatim>\<open>nn.Dropout\<close>, matrix products\<close>

record linear =
  in_features :: nat
  out_features :: nat
  weight :: "nat \<Rightarrow> nat \<Rightarrow> real"
  bias :: "(nat \<Rightarrow> real) option"

text \<open>\<^verbatim>\<open>F.linear\<close>: \<open>y = x W\<^sup>T + b\<close> on the last axis; a last axis that is not
  \<open>in_features\<close> wide raises.\<close>

definition Linear_forward :: "linear \<Rightarrow> real tensor3 \<Rightarrow> error + real tensor3" where
  "Linear_forward l x =
     (if dim2 x \<noteq> in_features l then Inl RuntimeError
      else Inr \<lparr>dim0 = dim0 x, dim1 = dim1 x, dim2 = out_features l,
                elem3 = \<lambda>b t o'. (\<Sum>i<in_features l. elem3 x b t i * weight l o' i)
                                   + (case bias l of None \<Rightarrow> 0 | Some bv \<Rightarrow> bv o')\<rparr>)"

text \<open>\<^verbatim>\<open>nn.Dropout(p)\<close>: the identity in evaluation mode; in training mode an entry is kept
  and scaled by \<open>1 / (1 - p)\<close> or zeroed, as the Bernoulli draw \<open>keep\<close> of this call says.\<close>

definition Dropout_forward ::
  "real \<Rightarrow> bool \<Rightarrow> (nat \<Rightarrow> nat \<Rightarrow> nat \<Rightarrow> bool) \<Rightarrow> real tensor3 \<Rightarrow> real tensor3" where
  "Dropout_forward p training keep x =
     (if training
      then x\<lparr>elem3 := \<lambda>b t c. if keep b t c then elem3 x b t c / (1 - p) else 0\<rparr>
      else x)"

text \<open>\<^verbatim>\<open>q @ k.transpose(-2,-1)\<close> on (B,T,hs) and (B,T',hs).\<close>

definition matmul_nt :: "real tensor3 \<Rightarrow> real tensor3 \<Rightarrow> error + real tensor3" where
  "matmul_nt q k =
     (if dim0 q \<noteq> dim0 k \<or> dim2 q \<noteq> dim2 k then Inl RuntimeError
      else Inr \<lparr>dim0 = dim0 q, dim1 = dim1 q, dim2 = dim1 k,
                elem3 = \<lambda>b i j. \<Sum>c<dim2 q. elem3 q b i c * elem3 k b j c\<rparr>)"

text \<open>\<^verbatim>\<open>wei @ v\<close> on (B,T,T') and (B,T',hs).\<close>

definition matmul :: "real tensor3 \<Rightarrow> real tensor3 \<Rightarrow> error + real tensor3" where
  "matmul w v =
     (if dim0 w \<noteq> dim0 v \<or> dim2 w \<noteq> dim1 v then Inl RuntimeError
      else Inr \<lparr>dim0 = dim0 w, dim1 = dim1 w, dim2 = dim2 v,
                elem3 = \<lambda>b i c. \<Sum>j<dim2 w. elem3 w b i j * elem3 v b j c\<rparr>)"

definition scale3 :: "real \<Rightarrow> real tensor3 \<Rightarrow> real tensor3" where
  "scale3 s x = x\<lparr>elem3 := \<lambda>b i j. elem3 x b i j * s\<rparr>"

subsection \<open>\<^verbatim>\<open>Head\<close>\<close>

text \<open>\<^verbatim>\<open>torch.tril(torch.ones(n, n))\<close>.\<close>

definition tril_ones :: "nat \<Rightarrow> real tensor2" where
  "tril_ones n = \<lparr>rows2 = n, cols2 = n, elem2 = \<lambda>i j. if j \<le> i then 1 else 0\<rparr>"

record head =
  key :: linear
  query :: linear
  val :: linear
  tril :: "real tensor2"
  head_p :: real

text \<open>\<^verbatim>\<open>wei.masked_fill(self.tril[:T,:T] == 0, float('-inf'))\<close>. The slice of the buffer has
  \<open>min T n\<close> rows and columns; the mask must broadcast to the last two axes of \<open>wei\<close>, so each
  of its axes has the length of the matching axis of \<open>wei\<close> or length 1, else the call
  raises.\<close>

definition masked_fill_tril :: "real tensor2 \<Rightarrow> nat \<Rightarrow> real tensor3 \<Rightarrow> error + score tensor3" where
  "masked_fill_tril tr T w =
     (let m0 = min T (rows2 tr); m1 = min T (cols2 tr) in
      if (m0 = dim1 w \<or> m0 = 1) \<and> (m1 = dim2 w \<or> m1 = 1)
      then Inr \<lparr>dim0 = dim0 w, dim1 = dim1 w, dim2 = dim2 w,
                elem3 = \<lambda>b i j.
                  if elem2 tr (if m0 = 1 then 0 else i) (if m1 = 1 then 0 else j) = 0
                  then MinusInf else Finite (elem3 w b i j)\<rparr>
      else Inl RuntimeError)"

text \<open>\<^verbatim>\<open>F.softmax(wei, dim=-1)\<close> on masked scores, with \<open>exp (-inf) = 0\<close>. On a row whose
  entries are all \<^verbatim>\<open>-inf\<close> the library returns NaN; \<open>softmax_nan\<close> says when that
  happens, and the value of \<open>softmax_masked\<close> on such a row has no meaning.\<close>

definition softmax_masked :: "score tensor3 \<Rightarrow> real tensor3" where
  "softmax_masked s =
     \<lparr>dim0 = dim0 s, dim1 = dim1 s, dim2 = dim2 s,
      elem3 = \<lambda>b i j. exp_score (elem3 s b i j) / (\<Sum>k<dim2 s. exp_score (elem3 s b i k))\<rparr>"

definition softmax_nan :: "score tensor3 \<Rightarrow> nat \<Rightarrow> nat \<Rightarrow> bool" where
  "softmax_nan s b i = (0 < dim2 s \<and> (\<forall>j\<in>{0..<dim2 s}. elem3 s b i j = MinusInf))"

text \<open>Lines 73 to 78 of \<^verbatim>\<open>Head.forward\<close>: keys, queries, scaled scores, causal mask.
  \<^verbatim>\<open>k.shape[-1]**-0.5\<close> is a Python power of an \<^verbatim>\<open>int\<close>, which raises at 0.\<close>

definition Head_masked :: "head \<Rightarrow> real tensor3 \<Rightarrow> error + score tensor3" where
  "Head_masked h x =
     bind_err (Linear_forward (key h) x) (\<lambda>k.
     bind_err (Linear_forward (query h) x) (\<lambda>q.
     bind_err (matmul_nt q k) (\<lambda>qk.
       if dim2 k = 0 then Inl ZeroDivisionError
       else masked_fill_tril (tril h) (dim1 x)
              (scale3 (real (dim2 k) powr (- 1 / 2)) qk))))"

text \<open>Line 79: the attention weights.\<close>

definition Head_wei :: "head \<Rightarrow> real tensor3 \<Rightarrow> error + real tensor3" where
  "Head_wei h x = bind_err (Head_masked h x) (\<lambda>s. Inr (softmax_masked s))"

text \<open>\<^verbatim>\<open>Head.forward\<close>.\<close>

definition Head_forward ::
  "head \<Rightarrow> bool \<Rightarrow> (nat \<Rightarrow> nat \<Rightarrow> nat \<Rightarrow> bool) \<Rightarrow> real tensor3 \<Rightarrow> error + real tensor3" where
  "Head_forward h training keep x =
     bind_err (Head_wei h x) (\<lambda>wei0.
       let wei = Dropout_forward (head_p h) training keep wei0 in
       bind_err (Linear_forward (val h) x) (\<lambda>v. matmul wei v))"

text \<open>\<^verbatim>\<open>Head.__init__(head_size)\<close>: three bias-free projections from the global \<^verbatim>\<open>n_embd\<close>,
  the mask buffer, the dropout layer (\<^verbatim>\<open>nn.Dropout\<close> raises on a probability outside
  \<open>[0, 1]\<close>).\<close>

definition Dropout_init :: "real \<Rightarrow> error + real" where
  "Dropout_init p = (if p < 0 \<or> 1 < p then Inl ValueError else Inr p)"

definition Linear_init ::
  "nat \<Rightarrow> nat \<Rightarrow> bool \<Rightarrow> (nat \<Rightarrow> nat \<Rightarrow> real) \<Rightarrow> (nat \<Rightarrow> real) \<Rightarrow> linear" where
  "Linear_init i o' has_bias w bv =
     \<lparr>in_features = i, out_features = o', weight = w,
      bias = (if has_bias then Some bv else None)\<rparr>"

text \<open>The random draws of a constructor: one matrix of numbers for each parameter tensor,
  found by the path of the module in the module tree and the number of the tensor in its
  module. A vector takes row 0.\<close>

type_synonym draws = "nat list \<Rightarrow> nat \<Rightarrow> nat \<Rightarrow> real"

definition sub :: "draws \<Rightarrow> nat \<Rightarrow> draws" where
  "sub g k = (\<lambda>path. g (k # path))"

definition Head_init :: "config \<Rightarrow> nat \<Rightarrow> draws \<Rightarrow> error + head" where
  "Head_init c head_size g =
     (let k = Linear_init (n_embd c) head_size False (g [0]) (g [0] 0);
          q = Linear_init (n_embd c) head_size False (g [1]) (g [1] 0);
          v = Linear_init (n_embd c) head_size False (g [2]) (g [2] 0) in
      bind_err (Dropout_init (dropout c)) (\<lambda>p.
        Inr \<lparr>key = k, query = q, val = v, tril = tril_ones (block_size c), head_p = p\<rparr>))"

text \<open>The shape of a head: what \<open>Head_init\<close> fixes and training never changes.\<close>

definition head_ok :: "config \<Rightarrow> nat \<Rightarrow> head \<Rightarrow> bool" where
  "head_ok c head_size h =
     (in_features (key h) = n_embd c \<and> out_features (key h) = head_size \<and>
      in_features (query h) = n_embd c \<and> out_features (query h) = head_size \<and>
      in_features (val h) = n_embd c \<and> out_features (val h) = head_size \<and>
      bias (key h) = None \<and> bias (query h) = None \<and> bias (val h) = None \<and>
      tril h = tril_ones (block_size c))"

subsection \<open>\<^verbatim>\<open>nn.LayerNorm\<close>\<close>

record layernorm =
  normalized_shape :: nat
  ln_weight :: "nat \<Rightarrow> real"
  ln_bias :: "nat \<Rightarrow> real"
  ln_eps :: real

text \<open>\<^verbatim>\<open>nn.LayerNorm(n)\<close>: weight one, bias zero, \<^verbatim>\<open>eps=1e-5\<close>.\<close>

definition LayerNorm_init :: "nat \<Rightarrow> layernorm" where
  "LayerNorm_init n =
     \<lparr>normalized_shape = n, ln_weight = (\<lambda>_. 1), ln_bias = (\<lambda>_. 0), ln_eps = 1 / 100000\<rparr>"

definition mean_last :: "real tensor3 \<Rightarrow> nat \<Rightarrow> nat \<Rightarrow> real" where
  "mean_last x b t = (\<Sum>i<dim2 x. elem3 x b t i) / real (dim2 x)"

definition var_last :: "real tensor3 \<Rightarrow> nat \<Rightarrow> nat \<Rightarrow> real" where
  "var_last x b t = (\<Sum>i<dim2 x. (elem3 x b t i - mean_last x b t)\<^sup>2) / real (dim2 x)"

definition LayerNorm_forward :: "layernorm \<Rightarrow> real tensor3 \<Rightarrow> error + real tensor3" where
  "LayerNorm_forward lnm x =
     (if dim2 x \<noteq> normalized_shape lnm then Inl RuntimeError
      else Inr (x\<lparr>elem3 := \<lambda>b t c.
                  (elem3 x b t c - mean_last x b t) / sqrt (var_last x b t + ln_eps lnm)
                    * ln_weight lnm c + ln_bias lnm c\<rparr>))"

subsection \<open>\<^verbatim>\<open>MultiHeadAttention\<close>\<close>

record mha =
  heads :: "head list"
  proj :: linear
  mha_p :: real

text \<open>The dropout draws of one call of the attention layer and of one call of a block.\<close>

record mha_noise =
  head_keep :: "nat \<Rightarrow> nat \<Rightarrow> nat \<Rightarrow> nat \<Rightarrow> bool"
  proj_keep :: "nat \<Rightarrow> nat \<Rightarrow> nat \<Rightarrow> bool"

record block_noise =
  sa_noise :: mha_noise
  ffwd_keep :: "nat \<Rightarrow> nat \<Rightarrow> nat \<Rightarrow> bool"

text \<open>\<^verbatim>\<open>[Head(head_size) for _ in range(num_heads)]\<close>: the heads are built in order and the
  first constructor that raises ends the comprehension.\<close>

fun heads_init :: "config \<Rightarrow> nat \<Rightarrow> draws \<Rightarrow> nat \<Rightarrow> nat \<Rightarrow> error + head list" where
  "heads_init c head_size g i 0 = Inr []"
| "heads_init c head_size g i (Suc n) =
     bind_err (Head_init c head_size (sub g i)) (\<lambda>h.
     bind_err (heads_init c head_size g (Suc i) n) (\<lambda>hs. Inr (h # hs)))"

definition MultiHeadAttention_init :: "config \<Rightarrow> nat \<Rightarrow> nat \<Rightarrow> draws \<Rightarrow> error + mha" where
  "MultiHeadAttention_init c num_heads head_size g =
     bind_err (heads_init c head_size (sub g 0) 0 num_heads) (\<lambda>hs.
       let pr = Linear_init (head_size * num_heads) (n_embd c) True (g [1]) (g [2] 0) in
       bind_err (Dropout_init (dropout c)) (\<lambda>p.
         Inr \<lparr>heads = hs, proj = pr, mha_p = p\<rparr>))"

text \<open>\<^verbatim>\<open>[h(x) for h in self.heads]\<close>.\<close>

fun heads_forward ::
  "head list \<Rightarrow> bool \<Rightarrow> (nat \<Rightarrow> nat \<Rightarrow> nat \<Rightarrow> nat \<Rightarrow> bool) \<Rightarrow> nat \<Rightarrow> real tensor3
     \<Rightarrow> error + real tensor3 list" where
  "heads_forward [] training kp i x = Inr []"
| "heads_forward (h # hs) training kp i x =
     bind_err (Head_forward h training (kp i) x) (\<lambda>out.
     bind_err (heads_forward hs training kp (Suc i) x) (\<lambda>outs. Inr (out # outs)))"

text \<open>\<^verbatim>\<open>torch.cat(ts, dim=-1)\<close>: raises on an empty list and on tensors that differ on
  another axis.\<close>

definition cat2_last :: "real tensor3 \<Rightarrow> real tensor3 \<Rightarrow> error + real tensor3" where
  "cat2_last a r =
     (if dim0 a = dim0 r \<and> dim1 a = dim1 r
      then Inr \<lparr>dim0 = dim0 a, dim1 = dim1 a, dim2 = dim2 a + dim2 r,
                elem3 = \<lambda>b t c. if c < dim2 a then elem3 a b t c
                                 else elem3 r b t (c - dim2 a)\<rparr>
      else Inl RuntimeError)"

fun cat_last :: "real tensor3 list \<Rightarrow> error + real tensor3" where
  "cat_last [] = Inl RuntimeError"
| "cat_last [a] = Inr a"
| "cat_last (a # b # ts) = bind_err (cat_last (b # ts)) (cat2_last a)"

definition MultiHeadAttention_forward ::
  "mha \<Rightarrow> bool \<Rightarrow> mha_noise \<Rightarrow> real tensor3 \<Rightarrow> error + real tensor3" where
  "MultiHeadAttention_forward m training nz x =
     bind_err (heads_forward (heads m) training (head_keep nz) 0 x) (\<lambda>outs.
     bind_err (cat_last outs) (\<lambda>out.
     bind_err (Linear_forward (proj m) out) (\<lambda>po.
       Inr (Dropout_forward (mha_p m) training (proj_keep nz) po))))"

subsection \<open>\<^verbatim>\<open>FeedForward\<close>\<close>

record feedforward =
  fc1 :: linear
  fc2 :: linear
  ff_p :: real

definition FeedForward_init :: "config \<Rightarrow> nat \<Rightarrow> draws \<Rightarrow> error + feedforward" where
  "FeedForward_init c n_embd' g =
     (let l1 = Linear_init n_embd' (4 * n_embd') True (g [0]) (g [1] 0);
          l2 = Linear_init (4 * n_embd') n_embd' True (g [2]) (g [3] 0) in
      bind_err (Dropout_init (dropout c)) (\<lambda>p.
        Inr \<lparr>fc1 = l1, fc2 = l2, ff_p = p\<rparr>))"

definition ReLU :: "real tensor3 \<Rightarrow> real tensor3" where
  "ReLU x = x\<lparr>elem3 := \<lambda>b t c. max 0 (elem3 x b t c)\<rparr>"

definition FeedForward_forward ::
  "feedforward \<Rightarrow> bool \<Rightarrow> (nat \<Rightarrow> nat \<Rightarrow> nat \<Rightarrow> bool) \<Rightarrow> real tensor3 \<Rightarrow> error + real tensor3" where
  "FeedForward_forward f training keep x =
     bind_err (Linear_forward (fc1 f) x) (\<lambda>h.
     bind_err (Linear_forward (fc2 f) (ReLU h)) (\<lambda>out.
       Inr (Dropout_forward (ff_p f) training keep out)))"

subsection \<open>\<^verbatim>\<open>Block\<close>\<close>

record block =
  sa :: mha
  ffwd :: feedforward
  ln1 :: layernorm
  ln2 :: layernorm

text \<open>\<^verbatim>\<open>Block.__init__(n_embd, n_head)\<close>. The two arguments shadow the globals inside this
  constructor and \<^verbatim>\<open>FeedForward\<close>; \<^verbatim>\<open>Head\<close> and \<^verbatim>\<open>MultiHeadAttention\<close> read the global
  \<^verbatim>\<open>n_embd\<close>. \<^verbatim>\<open>n_embd // n_head\<close> is the floor division of Python, which raises at 0.\<close>

definition Block_init :: "config \<Rightarrow> nat \<Rightarrow> nat \<Rightarrow> draws \<Rightarrow> error + block" where
  "Block_init c n_embd' n_head' g =
     (if n_head' = 0 then Inl ZeroDivisionError
      else let head_size = n_embd' div n_head' in
        bind_err (MultiHeadAttention_init c n_head' head_size (sub g 0)) (\<lambda>s.
        bind_err (FeedForward_init c n_embd' (sub g 1)) (\<lambda>f.
          Inr \<lparr>sa = s, ffwd = f, ln1 = LayerNorm_init n_embd', ln2 = LayerNorm_init n_embd'\<rparr>)))"

text \<open>Addition of two tensors with broadcasting: two axes go together when they have the
  same length or one of them has length 1.\<close>

definition bdim :: "nat \<Rightarrow> nat \<Rightarrow> nat option" where
  "bdim a b = (if a = b then Some a else if a = 1 then Some b else if b = 1 then Some a else None)"

definition bix :: "nat \<Rightarrow> nat \<Rightarrow> nat" where
  "bix d i = (if d = 1 then 0 else i)"

definition add3 :: "real tensor3 \<Rightarrow> real tensor3 \<Rightarrow> error + real tensor3" where
  "add3 x y =
     (case (bdim (dim0 x) (dim0 y), bdim (dim1 x) (dim1 y), bdim (dim2 x) (dim2 y)) of
        (Some d0, Some d1, Some d2) \<Rightarrow>
          Inr \<lparr>dim0 = d0, dim1 = d1, dim2 = d2,
               elem3 = \<lambda>b t c. elem3 x (bix (dim0 x) b) (bix (dim1 x) t) (bix (dim2 x) c)
                              + elem3 y (bix (dim0 y) b) (bix (dim1 y) t) (bix (dim2 y) c)\<rparr>
      | _ \<Rightarrow> Inl RuntimeError)"

text \<open>\<^verbatim>\<open>Block.forward\<close>.\<close>

definition Block_forward ::
  "block \<Rightarrow> bool \<Rightarrow> block_noise \<Rightarrow> real tensor3 \<Rightarrow> error + real tensor3" where
  "Block_forward blk training nz x =
     bind_err (LayerNorm_forward (ln1 blk) x) (\<lambda>n1.
     bind_err (MultiHeadAttention_forward (sa blk) training (sa_noise nz) n1) (\<lambda>a.
     bind_err (add3 x a) (\<lambda>x1.
     bind_err (LayerNorm_forward (ln2 blk) x1) (\<lambda>n2.
     bind_err (FeedForward_forward (ffwd blk) training (ffwd_keep nz) n2) (\<lambda>f.
       add3 x1 f)))))"

subsection \<open>\<^verbatim>\<open>nn.Embedding\<close>\<close>

record embedding =
  num_embeddings :: nat
  embedding_dim :: nat
  emb_weight :: "nat \<Rightarrow> nat \<Rightarrow> real"

definition Embedding_init :: "nat \<Rightarrow> nat \<Rightarrow> (nat \<Rightarrow> nat \<Rightarrow> real) \<Rightarrow> embedding" where
  "Embedding_init n d w = \<lparr>num_embeddings = n, embedding_dim = d, emb_weight = w\<rparr>"

text \<open>The lookup raises when an index is negative or not below \<open>num_embeddings\<close>:
  \<^verbatim>\<open>IndexError\<close>, and \<^verbatim>\<open>RuntimeError\<close> on a table with no row.\<close>

definition lookup_error :: "embedding \<Rightarrow> error" where
  "lookup_error e = (if num_embeddings e = 0 then RuntimeError else IndexError)"

definition Embedding_forward2 :: "embedding \<Rightarrow> int tensor2 \<Rightarrow> error + real tensor3" where
  "Embedding_forward2 e idx =
     (if \<exists>b\<in>{0..<rows2 idx}. \<exists>t\<in>{0..<cols2 idx}.
           elem2 idx b t < 0 \<or> int (num_embeddings e) \<le> elem2 idx b t
      then Inl (lookup_error e)
      else Inr \<lparr>dim0 = rows2 idx, dim1 = cols2 idx, dim2 = embedding_dim e,
                elem3 = \<lambda>b t c. emb_weight e (nat (elem2 idx b t)) c\<rparr>)"

definition Embedding_forward1 :: "embedding \<Rightarrow> int tensor1 \<Rightarrow> error + real tensor2" where
  "Embedding_forward1 e ix =
     (if \<exists>t\<in>{0..<len1 ix}. elem1 ix t < 0 \<or> int (num_embeddings e) \<le> elem1 ix t
      then Inl (lookup_error e)
      else Inr \<lparr>rows2 = len1 ix, cols2 = embedding_dim e,
                elem2 = \<lambda>t c. emb_weight e (nat (elem1 ix t)) c\<rparr>)"

definition arange :: "nat \<Rightarrow> int tensor1" where
  "arange T = \<lparr>len1 = T, elem1 = int\<rparr>"

text \<open>A (T,C) tensor seen as a (1,T,C) tensor, as broadcasting aligns it with (B,T,C).\<close>

definition unsqueeze0 :: "real tensor2 \<Rightarrow> real tensor3" where
  "unsqueeze0 p = \<lparr>dim0 = 1, dim1 = rows2 p, dim2 = cols2 p, elem3 = \<lambda>_ t c. elem2 p t c\<rparr>"

subsection \<open>\<^verbatim>\<open>GPTLanguageModel\<close>\<close>

record gpt =
  token_embedding :: embedding
  position_embedding_table :: embedding
  blocks :: "block list"
  ln_f :: layernorm
  lm_head :: linear

text \<open>\<^verbatim>\<open>_init_weights\<close>, applied to every module of the tree: the weight of a \<^verbatim>\<open>Linear\<close> and of
  an \<^verbatim>\<open>Embedding\<close> is drawn again (\<open>gn\<close> gives the normal draws), a bias is set to zero, a
  \<^verbatim>\<open>LayerNorm\<close> is left as it is.\<close>

definition init_weights_linear :: "(nat \<Rightarrow> nat \<Rightarrow> real) \<Rightarrow> linear \<Rightarrow> linear" where
  "init_weights_linear w l = l\<lparr>weight := w, bias := map_option (\<lambda>_. (\<lambda>_. 0)) (bias l)\<rparr>"

definition init_weights_embedding :: "(nat \<Rightarrow> nat \<Rightarrow> real) \<Rightarrow> embedding \<Rightarrow> embedding" where
  "init_weights_embedding w e = e\<lparr>emb_weight := w\<rparr>"

definition init_weights_head :: "draws \<Rightarrow> head \<Rightarrow> head" where
  "init_weights_head gn h =
     h\<lparr>key := init_weights_linear (gn [0]) (key h),
       query := init_weights_linear (gn [1]) (query h),
       val := init_weights_linear (gn [2]) (val h)\<rparr>"

fun init_weights_heads :: "draws \<Rightarrow> nat \<Rightarrow> head list \<Rightarrow> head list" where
  "init_weights_heads gn i [] = []"
| "init_weights_heads gn i (h # hs) =
     init_weights_head (sub gn i) h # init_weights_heads gn (Suc i) hs"

definition init_weights_block :: "draws \<Rightarrow> block \<Rightarrow> block" where
  "init_weights_block gn blk =
     blk\<lparr>sa := (sa blk)\<lparr>heads := init_weights_heads (sub (sub gn 0) 0) 0 (heads (sa blk)),
                         proj := init_weights_linear (sub gn 0 [1]) (proj (sa blk))\<rparr>,
         ffwd := (ffwd blk)\<lparr>fc1 := init_weights_linear (sub gn 1 [0]) (fc1 (ffwd blk)),
                             fc2 := init_weights_linear (sub gn 1 [2]) (fc2 (ffwd blk))\<rparr>\<rparr>"

fun init_weights_blocks :: "draws \<Rightarrow> nat \<Rightarrow> block list \<Rightarrow> block list" where
  "init_weights_blocks gn i [] = []"
| "init_weights_blocks gn i (blk # bs) =
     init_weights_block (sub gn i) blk # init_weights_blocks gn (Suc i) bs"

text \<open>\<^verbatim>\<open>[Block(n_embd, n_head) for _ in range(n_layer)]\<close>.\<close>

fun blocks_init :: "config \<Rightarrow> draws \<Rightarrow> nat \<Rightarrow> nat \<Rightarrow> error + block list" where
  "blocks_init c g i 0 = Inr []"
| "blocks_init c g i (Suc n) =
     bind_err (Block_init c (n_embd c) (n_head c) (sub g i)) (\<lambda>blk.
     bind_err (blocks_init c g (Suc i) n) (\<lambda>bs. Inr (blk # bs)))"

text \<open>\<^verbatim>\<open>GPTLanguageModel.__init__\<close>: \<open>g\<close> gives the draws of the constructors, \<open>gn\<close> those of
  \<^verbatim>\<open>_init_weights\<close>.\<close>

definition GPTLanguageModel_init :: "config \<Rightarrow> draws \<Rightarrow> draws \<Rightarrow> error + gpt" where
  "GPTLanguageModel_init c g gn =
     (let te = Embedding_init (vocab_size c) (n_embd c) (g [0]);
          pe = Embedding_init (block_size c) (n_embd c) (g [1]) in
      bind_err (blocks_init c (sub g 2) 0 (n_layer c)) (\<lambda>bs.
        let lf = LayerNorm_init (n_embd c);
            lh = Linear_init (n_embd c) (vocab_size c) True (g [3]) (g [4] 0) in
        Inr \<lparr>token_embedding = init_weights_embedding (gn [0]) te,
             position_embedding_table = init_weights_embedding (gn [1]) pe,
             blocks = init_weights_blocks (sub gn 2) 0 bs,
             ln_f = lf,
             lm_head = init_weights_linear (gn [3]) lh\<rparr>))"

text \<open>\<^verbatim>\<open>for block in self.blocks: x = block(x)\<close>; block \<open>i\<close> takes the dropout draws \<open>nz i\<close>.\<close>

fun run_blocks ::
  "block list \<Rightarrow> bool \<Rightarrow> (nat \<Rightarrow> block_noise) \<Rightarrow> nat \<Rightarrow> real tensor3 \<Rightarrow> error + real tensor3" where
  "run_blocks [] training nz i x = Inr x"
| "run_blocks (blk # bs) training nz i x =
     bind_err (Block_forward blk training (nz i) x) (run_blocks bs training nz (Suc i))"

text \<open>The value of \<^verbatim>\<open>logits\<close> that \<^verbatim>\<open>forward\<close> returns has three axes or two; a loss is a
  number or, for a mean over no element, NaN.\<close>

datatype logits = Logits3 "real tensor3" | Logits2 "real tensor2"

datatype lossval = LossNaN | Loss real

text \<open>\<^verbatim>\<open>logits.view(B*T, C)\<close> and \<^verbatim>\<open>targets.view(B*T)\<close> on contiguous tensors, in row-major
  order; a view to another number of elements raises.\<close>

definition view_BT_C :: "real tensor3 \<Rightarrow> real tensor2" where
  "view_BT_C l =
     \<lparr>rows2 = dim0 l * dim1 l, cols2 = dim2 l,
      elem2 = \<lambda>n c. elem3 l (n div dim1 l) (n mod dim1 l) c\<rparr>"

definition view_BT :: "int tensor2 \<Rightarrow> nat \<Rightarrow> error + int tensor1" where
  "view_BT tg n =
     (if rows2 tg * cols2 tg \<noteq> n then Inl RuntimeError
      else Inr \<lparr>len1 = n, elem1 = \<lambda>k. elem2 tg (k div cols2 tg) (k mod cols2 tg)\<rparr>)"

text \<open>\<^verbatim>\<open>F.cross_entropy(logits, targets)\<close> with its defaults: the mean, over the rows whose
  target is not \<^verbatim>\<open>ignore_index = -100\<close>, of minus the logarithm of the softmax of the row at
  its target. It raises when the two batch sizes differ and on a target that is neither a
  class nor \<^verbatim>\<open>-100\<close>.\<close>

definition softmax_row :: "(nat \<Rightarrow> real) \<Rightarrow> nat \<Rightarrow> nat \<Rightarrow> real" where
  "softmax_row f n j = exp (f j) / (\<Sum>k<n. exp (f k))"

definition cross_entropy :: "real tensor2 \<Rightarrow> int tensor1 \<Rightarrow> error + lossval" where
  "cross_entropy l tg =
     (if len1 tg \<noteq> rows2 l then Inl ValueError
      else if \<exists>n\<in>{0..<rows2 l}. elem1 tg n \<noteq> - 100 \<and>
                (elem1 tg n < 0 \<or> int (cols2 l) \<le> elem1 tg n)
      then Inl IndexError
      else let ns = filter (\<lambda>n. elem1 tg n \<noteq> - 100) [0..<rows2 l] in
        if ns = [] then Inr LossNaN
        else Inr (Loss ((\<Sum>n\<leftarrow>ns. - ln (softmax_row (elem2 l n) (cols2 l) (nat (elem1 tg n))))
                          / real (length ns))))"

text \<open>\<^verbatim>\<open>GPTLanguageModel.forward\<close>. \<open>training\<close> is the mode flag of the modules, \<open>nz\<close> the
  dropout draws of this call.\<close>

definition forward ::
  "gpt \<Rightarrow> bool \<Rightarrow> (nat \<Rightarrow> block_noise) \<Rightarrow> int tensor2 \<Rightarrow> int tensor2 option
     \<Rightarrow> error + logits \<times> lossval option" where
  "forward m training nz idx targets =
     (let T = cols2 idx in
      bind_err (Embedding_forward2 (token_embedding m) idx) (\<lambda>tok_emb.
      bind_err (Embedding_forward1 (position_embedding_table m) (arange T)) (\<lambda>pos_emb.
      bind_err (add3 tok_emb (unsqueeze0 pos_emb)) (\<lambda>x0.
      bind_err (run_blocks (blocks m) training nz 0 x0) (\<lambda>x1.
      bind_err (LayerNorm_forward (ln_f m) x1) (\<lambda>x2.
      bind_err (Linear_forward (lm_head m) x2) (\<lambda>lg.
        case targets of
          None \<Rightarrow> Inr (Logits3 lg, None)
        | Some tg \<Rightarrow>
            let lg2 = view_BT_C lg in
            bind_err (view_BT tg (dim0 lg * dim1 lg)) (\<lambda>tg1.
            bind_err (cross_entropy lg2 tg1) (\<lambda>loss.
              Inr (Logits2 lg2, Some loss))))))))))"

subsection \<open>\<^verbatim>\<open>generate\<close>\<close>

text \<open>\<^verbatim>\<open>idx[:, -block_size:]\<close>: the last \<open>block_size\<close> columns, or all of them when there are
  fewer; \<^verbatim>\<open>-0\<close> is \<^verbatim>\<open>0\<close>, so a block size of 0 keeps every column.\<close>

definition crop_last :: "nat \<Rightarrow> int tensor2 \<Rightarrow> int tensor2" where
  "crop_last n idx =
     (let start = (if n = 0 then 0 else cols2 idx - n) in
      \<lparr>rows2 = rows2 idx, cols2 = cols2 idx - start,
       elem2 = \<lambda>b t. elem2 idx b (start + t)\<rparr>)"

text \<open>\<^verbatim>\<open>logits[:, -1, :]\<close>: raises on a tensor with two axes and on an empty time axis.\<close>

definition last_step :: "logits \<Rightarrow> error + real tensor2" where
  "last_step lg =
     (case lg of
        Logits2 _ \<Rightarrow> Inl IndexError
      | Logits3 l \<Rightarrow>
          if dim1 l = 0 then Inl IndexError
          else Inr \<lparr>rows2 = dim0 l, cols2 = dim2 l,
                    elem2 = \<lambda>b c. elem3 l b (dim1 l - 1) c\<rparr>)"

definition softmax2 :: "real tensor2 \<Rightarrow> real tensor2" where
  "softmax2 l = l\<lparr>elem2 := \<lambda>b c. softmax_row (elem2 l b) (cols2 l) c\<rparr>"

text \<open>\<^verbatim>\<open>torch.multinomial(probs, num_samples=1)\<close> is library code. It is modelled by its
  contract: row \<open>b\<close> yields one category of the distribution \<open>probs[b]\<close>, here the category
  whose interval of cumulative probability holds the uniform draw \<open>u b\<close>, the last category
  when none does. Asking for one sample of no category raises.\<close>

fun sample_scan :: "(nat \<Rightarrow> real) \<Rightarrow> real \<Rightarrow> real \<Rightarrow> nat \<Rightarrow> nat \<Rightarrow> nat" where
  "sample_scan p u acc k 0 = k"
| "sample_scan p u acc k (Suc r) =
     (if r = 0 \<or> u < acc + p k then k else sample_scan p u (acc + p k) (Suc k) r)"

definition multinomial :: "real tensor2 \<Rightarrow> (nat \<Rightarrow> real) \<Rightarrow> error + int tensor2" where
  "multinomial probs u =
     (if cols2 probs = 0 then Inl RuntimeError
      else Inr \<lparr>rows2 = rows2 probs, cols2 = 1,
                elem2 = \<lambda>b _. int (sample_scan (elem2 probs b) (u b) 0 0 (cols2 probs))\<rparr>)"

text \<open>\<^verbatim>\<open>torch.cat((idx, idx_next), dim=1)\<close>.\<close>

definition cat_dim1 :: "int tensor2 \<Rightarrow> int tensor2 \<Rightarrow> error + int tensor2" where
  "cat_dim1 a r =
     (if rows2 a \<noteq> rows2 r then Inl RuntimeError
      else Inr \<lparr>rows2 = rows2 a, cols2 = cols2 a + cols2 r,
                elem2 = \<lambda>b t. if t < cols2 a then elem2 a b t else elem2 r b (t - cols2 a)\<rparr>)"

text \<open>One pass of the loop body of \<^verbatim>\<open>generate\<close>, with the dropout draws \<open>nz\<close> and the sampling
  draws \<open>u\<close> of this pass.\<close>

definition generate_step ::
  "config \<Rightarrow> gpt \<Rightarrow> bool \<Rightarrow> (nat \<Rightarrow> block_noise) \<Rightarrow> (nat \<Rightarrow> real) \<Rightarrow> int tensor2
     \<Rightarrow> error + int tensor2" where
  "generate_step c m training nz u idx =
     (let idx_cond = crop_last (block_size c) idx in
      bind_err (forward m training nz idx_cond None) (\<lambda>(lg, loss).
      bind_err (last_step lg) (\<lambda>lg1.
        let probs = softmax2 lg1 in
        bind_err (multinomial probs u) (\<lambda>idx_next.
          cat_dim1 idx idx_next))))"

text \<open>\<^verbatim>\<open>for _ in range(max_new_tokens)\<close>: \<open>k\<close> counts the passes made so far.\<close>

fun generate_loop ::
  "config \<Rightarrow> gpt \<Rightarrow> bool \<Rightarrow> (nat \<Rightarrow> nat \<Rightarrow> block_noise) \<Rightarrow> (nat \<Rightarrow> nat \<Rightarrow> real) \<Rightarrow> nat \<Rightarrow> nat
     \<Rightarrow> int tensor2 \<Rightarrow> error + int tensor2" where
  "generate_loop c m training nz u k 0 idx = Inr idx"
| "generate_loop c m training nz u k (Suc n) idx =
     bind_err (generate_step c m training (nz k) (u k) idx)
       (generate_loop c m training nz u (Suc k) n)"

definition generate ::
  "config \<Rightarrow> gpt \<Rightarrow> bool \<Rightarrow> (nat \<Rightarrow> nat \<Rightarrow> block_noise) \<Rightarrow> (nat \<Rightarrow> nat \<Rightarrow> real) \<Rightarrow> int tensor2
     \<Rightarrow> nat \<Rightarrow> error + int tensor2" where
  "generate c m training nz u idx max_new_tokens =
     generate_loop c m training nz u 0 max_new_tokens idx"

subsection \<open>The training loop\<close>

text \<open>Lines 198 to 209. The state of the loop is the parameters of the model, with the state
  of the optimizer, and the trace of what ran. \<open>step i\<close> is the effect on the parameters of
  lines 204 to 209 at iteration \<open>i\<close>: a batch is drawn, the loss and its gradient are
  computed, the optimizer makes its step. \<^verbatim>\<open>estimate_loss\<close> runs without gradients and
  leaves the parameters as they are. \<^verbatim>\<open>iter % eval_interval\<close> raises at an interval of 0.\<close>

record hyper =
  max_iters :: nat
  eval_interval :: nat

datatype event = EstimateLoss nat | OptimizerStep nat

record 'p train_state =
  params :: 'p
  trace :: "event list"

definition eval_due :: "hyper \<Rightarrow> nat \<Rightarrow> bool" where
  "eval_due h i = (i mod eval_interval h = 0 \<or> int i = int (max_iters h) - 1)"

definition train_iter ::
  "hyper \<Rightarrow> (nat \<Rightarrow> 'p \<Rightarrow> 'p) \<Rightarrow> nat \<Rightarrow> 'p train_state \<Rightarrow> error + 'p train_state" where
  "train_iter h step i s =
     (if eval_interval h = 0 then Inl ZeroDivisionError
      else if eval_due h i
      then Inr \<lparr>params = step i (params s),
                trace = trace s @ [EstimateLoss i, OptimizerStep i]\<rparr>
      else Inr s)"

text \<open>\<^verbatim>\<open>for iter in range(max_iters)\<close>, from iteration \<open>i\<close> with \<open>n\<close> iterations left.\<close>

fun train_from ::
  "hyper \<Rightarrow> (nat \<Rightarrow> 'p \<Rightarrow> 'p) \<Rightarrow> nat \<Rightarrow> nat \<Rightarrow> 'p train_state \<Rightarrow> error + 'p train_state" where
  "train_from h step i 0 s = Inr s"
| "train_from h step i (Suc n) s =
     bind_err (train_iter h step i s) (train_from h step (Suc i) n)"

definition training_loop ::
  "hyper \<Rightarrow> (nat \<Rightarrow> 'p \<Rightarrow> 'p) \<Rightarrow> 'p train_state \<Rightarrow> error + 'p train_state" where
  "training_loop h step s = train_from h step 0 (max_iters h) s"

subsection \<open>Shapes\<close>

text \<open>What the constructors fix and training never changes: the shapes of the parameters,
  the mask buffer, the number of heads and of blocks.\<close>

definition mha_ok :: "config \<Rightarrow> nat \<Rightarrow> nat \<Rightarrow> mha \<Rightarrow> bool" where
  "mha_ok c num_heads head_size m =
     (length (heads m) = num_heads \<and> (\<forall>h\<in>set (heads m). head_ok c head_size h) \<and>
      in_features (proj m) = head_size * num_heads \<and> out_features (proj m) = n_embd c)"

definition feedforward_ok :: "nat \<Rightarrow> feedforward \<Rightarrow> bool" where
  "feedforward_ok n f =
     (in_features (fc1 f) = n \<and> out_features (fc1 f) = 4 * n \<and>
      in_features (fc2 f) = 4 * n \<and> out_features (fc2 f) = n)"

definition block_ok :: "config \<Rightarrow> block \<Rightarrow> bool" where
  "block_ok c blk =
     (mha_ok c (n_head c) (n_embd c div n_head c) (sa blk) \<and>
      feedforward_ok (n_embd c) (ffwd blk) \<and>
      normalized_shape (ln1 blk) = n_embd c \<and> normalized_shape (ln2 blk) = n_embd c)"

definition gpt_ok :: "config \<Rightarrow> gpt \<Rightarrow> bool" where
  "gpt_ok c m =
     (num_embeddings (token_embedding m) = vocab_size c \<and>
      embedding_dim (token_embedding m) = n_embd c \<and>
      num_embeddings (position_embedding_table m) = block_size c \<and>
      embedding_dim (position_embedding_table m) = n_embd c \<and>
      length (blocks m) = n_layer c \<and> (\<forall>blk\<in>set (blocks m). block_ok c blk) \<and>
      normalized_shape (ln_f m) = n_embd c \<and>
      in_features (lm_head m) = n_embd c \<and> out_features (lm_head m) = vocab_size c)"

text \<open>A batch of token ids: every entry is a token of the vocabulary.\<close>

definition tokens_ok :: "config \<Rightarrow> int tensor2 \<Rightarrow> bool" where
  "tokens_ok c idx =
     (\<forall>b\<in>{0..<rows2 idx}. \<forall>t\<in>{0..<cols2 idx}. 0 \<le> elem2 idx b t \<and> elem2 idx b t < int (vocab_size c))"

subsection \<open>The attention head as the specification words it\<close>

text \<open>The specification of the attention head, read literally: projections without bias,
  scores \<open>query \<cdot> key\<close> scaled by \<open>1 / sqrt head_size\<close>, \<^verbatim>\<open>-inf\<close> at every \<open>j > i\<close>, softmax
  over the last axis, dropout of the weights in training mode only, weighted sum of the
  values.\<close>

definition proj_nobias :: "linear \<Rightarrow> real tensor3 \<Rightarrow> nat \<Rightarrow> nat \<Rightarrow> nat \<Rightarrow> real" where
  "proj_nobias l x b t c = (\<Sum>e<dim2 x. elem3 x b t e * weight l c e)"

definition spec_score :: "head \<Rightarrow> nat \<Rightarrow> real tensor3 \<Rightarrow> nat \<Rightarrow> nat \<Rightarrow> nat \<Rightarrow> real" where
  "spec_score h head_size x b i j =
     (\<Sum>c<head_size. proj_nobias (query h) x b i c * proj_nobias (key h) x b j c)
       * (1 / sqrt (real head_size))"

definition spec_masked :: "head \<Rightarrow> nat \<Rightarrow> real tensor3 \<Rightarrow> nat \<Rightarrow> nat \<Rightarrow> nat \<Rightarrow> score" where
  "spec_masked h head_size x b i j =
     (if i < j then MinusInf else Finite (spec_score h head_size x b i j))"

definition spec_wei :: "head \<Rightarrow> nat \<Rightarrow> real tensor3 \<Rightarrow> nat \<Rightarrow> nat \<Rightarrow> nat \<Rightarrow> real" where
  "spec_wei h head_size x b i j =
     exp_score (spec_masked h head_size x b i j)
       / (\<Sum>k<dim1 x. exp_score (spec_masked h head_size x b i k))"

definition spec_dropout :: "real \<Rightarrow> bool \<Rightarrow> bool \<Rightarrow> real \<Rightarrow> real" where
  "spec_dropout p training kept w = (if training then (if kept then w / (1 - p) else 0) else w)"

definition spec_head_out ::
  "head \<Rightarrow> nat \<Rightarrow> bool \<Rightarrow> (nat \<Rightarrow> nat \<Rightarrow> nat \<Rightarrow> bool) \<Rightarrow> real tensor3 \<Rightarrow> nat \<Rightarrow> nat \<Rightarrow> nat \<Rightarrow> real" where
  "spec_head_out h head_size training keep x b i c =
     (\<Sum>j<dim1 x. spec_dropout (head_p h) training (keep b i j) (spec_wei h head_size x b i j)
                      * proj_nobias (val h) x b j c)"

subsection \<open>Two runs that agree on a prefix\<close>

text \<open>Two activations of the same shape with the same entries at every time step up to
  \<open>i\<close>, whatever they hold later.\<close>

definition agree_upto :: "nat \<Rightarrow> real tensor3 \<Rightarrow> real tensor3 \<Rightarrow> bool" where
  "agree_upto i x y =
     (dim0 x = dim0 y \<and> dim1 x = dim1 y \<and> dim2 x = dim2 y \<and>
      (\<forall>b t c. b < dim0 x \<and> t \<le> i \<and> t < dim1 x \<longrightarrow> elem3 x b t c = elem3 y b t c))"

text \<open>Two batches of token ids of the same shape with the same tokens at every position up
  to \<open>i\<close>.\<close>

definition same_prefix :: "nat \<Rightarrow> int tensor2 \<Rightarrow> int tensor2 \<Rightarrow> bool" where
  "same_prefix i idx idx' =
     (rows2 idx = rows2 idx' \<and> cols2 idx = cols2 idx' \<and>
      (\<forall>b\<in>{0..<rows2 idx}. \<forall>t\<in>{0..<cols2 idx}. t \<le> i \<longrightarrow> elem2 idx b t = elem2 idx' b t))"

subsection \<open>The constants of the script\<close>

text \<open>Lines 5 to 15; \<^verbatim>\<open>vocab_size\<close> is the number of distinct characters of the corpus.\<close>

definition train_config :: "nat \<Rightarrow> config" where
  "train_config v =
     \<lparr>block_size = 256, n_embd = 384, n_head = 6, n_layer = 6, dropout = 1 / 5,
      vocab_size = v\<rparr>"

definition train_hyper :: hyper where
  "train_hyper = \<lparr>max_iters = 5000, eval_interval = 500\<rparr>"

definition zeros3 :: "nat \<Rightarrow> nat \<Rightarrow> nat \<Rightarrow> real tensor3" where
  "zeros3 B T C = \<lparr>dim0 = B, dim1 = T, dim2 = C, elem3 = \<lambda>_ _ _. 0\<rparr>"

text \<open>\<^verbatim>\<open>torch.zeros((B,T), dtype=torch.long)\<close>, the context that line 213 builds.\<close>

definition zeros2 :: "nat \<Rightarrow> nat \<Rightarrow> int tensor2" where
  "zeros2 B T = \<lparr>rows2 = B, cols2 = T, elem2 = \<lambda>_ _. 0\<rparr>"

text \<open>A batch of zeros whose last column holds the token \<open>v\<close>, and dropout draws that keep
  every entry.\<close>

definition ids_with_last :: "nat \<Rightarrow> nat \<Rightarrow> int \<Rightarrow> int tensor2" where
  "ids_with_last B T v = \<lparr>rows2 = B, cols2 = T, elem2 = \<lambda>b t. if Suc t = T then v else 0\<rparr>"

definition keep_all :: block_noise where
  "keep_all =
     \<lparr>sa_noise = \<lparr>head_keep = \<lambda>_ _ _ _. True, proj_keep = \<lambda>_ _ _. True\<rparr>,
      ffwd_keep = \<lambda>_ _ _. True\<rparr>"

text \<open>The constants of the script with an embedding width that the number of heads does
  not divide.\<close>

definition uneven_config :: config where
  "uneven_config = (train_config 65)\<lparr>n_embd := 100\<rparr>"

section \<open>Properties\<close>

subsection \<open>Results with errors\<close>

lemma bind_err_Inl [simp]: "bind_err (Inl e) f = Inl e"
  by (simp add: bind_err_def)

lemma bind_err_Inr [simp]: "bind_err (Inr v) f = f v"
  by (simp add: bind_err_def)

lemma bind_err_eq_Inr: "bind_err r f = Inr y \<longleftrightarrow> (\<exists>v. r = Inr v \<and> f v = Inr y)"
  by (cases r) simp_all

subsection \<open>The training loop\<close>

lemma train_from_eq:
  "0 < eval_interval h \<Longrightarrow>
   train_from h step i n s =
     Inr \<lparr>params = fold step (filter (eval_due h) [i..<i + n]) (params s),
          trace = trace s @ concat (map (\<lambda>k. [EstimateLoss k, OptimizerStep k])
                                     (filter (eval_due h) [i..<i + n]))\<rparr>"
proof (induction n arbitrary: i s)
  case 0
  then show ?case by simp
next
  case (Suc n)
  have upt: "[i..<Suc (i + n)] = i # [Suc i..<Suc (i + n)]"
    by (simp add: upt_conv_Cons)
  show ?case
    using Suc.prems by (simp add: upt train_iter_def Suc.IH del: upt_Suc)
qed

text \<open>
  C9. In the training loop the optimizer step runs only at the iterations where
  \<^verbatim>\<open>iter % eval_interval == 0 or iter == max_iters - 1\<close>, together with the loss
  evaluation: every other iteration leaves the parameters and the trace as they are, and the
  whole loop applies the step at exactly the iterations that satisfy the condition, in
  order.
\<close>

theorem training_loop_step_placement:
  assumes "0 < eval_interval h"
  shows "(\<forall>i s. i < max_iters h \<and> \<not> (i mod eval_interval h = 0 \<or> i = max_iters h - 1)
            \<longrightarrow> train_iter h step i s = Inr s)
       \<and> (\<forall>i s. i < max_iters h \<and> (i mod eval_interval h = 0 \<or> i = max_iters h - 1)
            \<longrightarrow> train_iter h step i s =
                   Inr \<lparr>params = step i (params s),
                        trace = trace s @ [EstimateLoss i, OptimizerStep i]\<rparr>)
       \<and> training_loop h step s =
           Inr \<lparr>params = fold step (filter (eval_due h) [0..<max_iters h]) (params s),
                trace = trace s @ concat (map (\<lambda>k. [EstimateLoss k, OptimizerStep k])
                                           (filter (eval_due h) [0..<max_iters h]))\<rparr>"
proof -
  have due: "eval_due h i \<longleftrightarrow> (i mod eval_interval h = 0 \<or> i = max_iters h - 1)"
    if "i < max_iters h" for i
    using that by (auto simp: eval_due_def)
  show ?thesis
    using assms train_from_eq [OF assms, of step 0 "max_iters h" s]
    by (auto simp: training_loop_def train_iter_def due)
qed

theorem training_loop_step_placement_witness:
  "train_iter \<lparr>max_iters = 5000, eval_interval = 500\<rparr> (\<lambda>i p. Suc p) 1
     \<lparr>params = (0::nat), trace = []\<rparr> = Inr \<lparr>params = 0, trace = []\<rparr>
   \<and> train_iter \<lparr>max_iters = 5000, eval_interval = 500\<rparr> (\<lambda>i p. Suc p) 500
     \<lparr>params = (0::nat), trace = []\<rparr>
       = Inr \<lparr>params = 1, trace = [EstimateLoss 500, OptimizerStep 500]\<rparr>"
  using training_loop_step_placement [of "\<lparr>max_iters = 5000, eval_interval = 500\<rparr>" "\<lambda>i p. Suc p"]
  by simp

subsection \<open>The attention head\<close>

lemma Linear_forward_Inr:
  "dim2 x = in_features l \<Longrightarrow>
   Linear_forward l x =
     Inr \<lparr>dim0 = dim0 x, dim1 = dim1 x, dim2 = out_features l,
          elem3 = \<lambda>b t o'. (\<Sum>i<in_features l. elem3 x b t i * weight l o' i)
                             + (case bias l of None \<Rightarrow> 0 | Some bv \<Rightarrow> bv o')\<rparr>"
  by (simp add: Linear_forward_def)

lemma powr_minus_half: "0 < n \<Longrightarrow> real n powr (- (1 / 2)) = 1 / sqrt (real n)"
  by (simp add: powr_minus_divide powr_half_sqrt)

lemma Head_masked_spec:
  assumes "head_ok c hs h" "dim2 x = n_embd c" "0 < hs" "dim1 x \<le> block_size c"
  shows "\<exists>s. Head_masked h x = Inr s \<and> dim0 s = dim0 x \<and> dim1 s = dim1 x \<and> dim2 s = dim1 x
           \<and> (\<forall>b i j. i < dim1 x \<and> j < dim1 x
                 \<longrightarrow> elem3 s b i j = spec_masked h hs x b i j)"
  using assms
  by (auto simp: head_ok_def Head_masked_def Linear_forward_Inr matmul_nt_def scale3_def
      masked_fill_tril_def Let_def spec_masked_def spec_score_def proj_nobias_def
      powr_minus_half tril_ones_def min_def)


lemma exp_score_nonneg: "0 \<le> exp_score s"
  by (cases s) simp_all

lemma exp_score_pos: "s \<noteq> MinusInf \<Longrightarrow> 0 < exp_score s"
  by (cases s) simp_all

lemma exp_score_sum_pos:
  assumes "(j::nat) < n" "f j \<noteq> MinusInf"
  shows "0 < (\<Sum>k<n. exp_score (f k))"
  by (rule sum_pos2 [where i = j]) (use assms in \<open>auto simp: exp_score_pos exp_score_nonneg\<close>)

lemma softmax_masked_row_sum:
  assumes "j < dim2 s" "elem3 s b i j \<noteq> MinusInf"
  shows "(\<Sum>k<dim2 s. elem3 (softmax_masked s) b i k) = 1"
proof -
  have "0 < (\<Sum>k<dim2 s. exp_score (elem3 s b i k))"
    using assms by (rule exp_score_sum_pos)
  then show ?thesis
    by (simp add: softmax_masked_def sum_divide_distrib [symmetric])
qed

lemma Head_masked_mask:
  assumes "tril h = tril_ones n" "dim1 x \<le> n" "Head_masked h x = Inr s"
  shows "dim0 s = dim0 x \<and> dim1 s = dim1 x \<and> dim2 s = dim1 x
           \<and> (\<forall>b i j. i < dim1 x \<and> j < dim1 x \<longrightarrow> (elem3 s b i j = MinusInf) = (i < j))"
  using assms
  by (auto simp: Head_masked_def bind_err_def Linear_forward_def matmul_nt_def scale3_def
      masked_fill_tril_def Let_def tril_ones_def min_def split: if_splits sum.splits)

lemma Head_init_ok: "Head_init c hs g = Inr h \<Longrightarrow> head_ok c hs h"
  by (auto simp: Head_init_def Linear_init_def head_ok_def Let_def bind_err_eq_Inr)

lemma Dropout_init_Inr: "0 \<le> p \<Longrightarrow> p \<le> 1 \<Longrightarrow> Dropout_init p = Inr p"
  by (simp add: Dropout_init_def)

lemma Head_init_Inr:
  "0 \<le> dropout c \<Longrightarrow> dropout c \<le> 1 \<Longrightarrow> \<exists>h. Head_init c hs g = Inr h"
  by (simp add: Head_init_def Dropout_init_Inr Let_def)

text \<open>
  C10. For \<open>1 \<le> T \<le> block_size\<close>, whenever the head reaches \<^verbatim>\<open>masked_fill\<close>, every
  query row \<open>i\<close> of the masked scores keeps a finite entry on the diagonal \<open>j = i\<close>: the
  softmax of the head never meets a row of \<^verbatim>\<open>-inf\<close> only, so masking alone never yields
  NaN weights.
\<close>

theorem softmax_well_defined_under_mask:
  assumes "head_ok c hs h" "1 \<le> dim1 x" "dim1 x \<le> block_size c"
    and "Head_masked h x = Inr s" "i < dim1 x"
  shows "(\<exists>r. elem3 s b i i = Finite r) \<and> \<not> softmax_nan s b i"
proof -
  have m: "dim2 s = dim1 x" "elem3 s b i i \<noteq> MinusInf"
    using Head_masked_mask [of h "block_size c" x s] assms by (auto simp: head_ok_def)
  then have "\<exists>r. elem3 s b i i = Finite r"
    by (cases "elem3 s b i i") simp_all
  moreover have "\<not> softmax_nan s b i"
    using m assms(5) by (auto simp: softmax_nan_def)
  ultimately show ?thesis by simp
qed

theorem softmax_well_defined_under_mask_witness:
  "\<exists>h s. Head_init (train_config 65) 64 (\<lambda>_ _ _. 0) = Inr h
         \<and> Head_masked h (zeros3 1 8 384) = Inr s
         \<and> (\<exists>r. elem3 s 0 7 7 = Finite r) \<and> \<not> softmax_nan s 0 7"
proof -
  obtain h where h: "Head_init (train_config 65) 64 (\<lambda>_ _ _. 0) = Inr h"
    using Head_init_Inr [of "train_config 65" 64] by (auto simp: train_config_def)
  then have ok: "head_ok (train_config 65) 64 h"
    by (rule Head_init_ok)
  obtain s where s: "Head_masked h (zeros3 1 8 384) = Inr s"
    using Head_masked_spec [OF ok, of "zeros3 1 8 384"]
    by (auto simp: train_config_def zeros3_def)
  have "(\<exists>r. elem3 s 0 7 7 = Finite r) \<and> \<not> softmax_nan s 0 7"
    using softmax_well_defined_under_mask [OF ok _ _ s, of 7 0]
    by (simp add: train_config_def zeros3_def)
  with h s show ?thesis by blast
qed

lemma Head_wei_spec:
  assumes "head_ok c hs h" "dim2 x = n_embd c" "0 < hs" "dim1 x \<le> block_size c"
  shows "\<exists>w. Head_wei h x = Inr w \<and> dim0 w = dim0 x \<and> dim1 w = dim1 x \<and> dim2 w = dim1 x
           \<and> (\<forall>b i j. i < dim1 x \<and> j < dim1 x
                 \<longrightarrow> elem3 w b i j = spec_wei h hs x b i j)"
proof -
  from Head_masked_spec [OF assms] obtain s where s: "Head_masked h x = Inr s"
    and d: "dim0 s = dim0 x" "dim1 s = dim1 x" "dim2 s = dim1 x"
    and e: "\<And>b i j. i < dim1 x \<Longrightarrow> j < dim1 x \<Longrightarrow> elem3 s b i j = spec_masked h hs x b i j"
    by blast
  have "elem3 (softmax_masked s) b i j = spec_wei h hs x b i j"
    if "i < dim1 x" "j < dim1 x" for b i j
    using that d e by (simp add: softmax_masked_def spec_wei_def)
  then show ?thesis
    using s d by (simp add: Head_wei_def softmax_masked_def)
qed

text \<open>
  C7. For \<open>T \<le> block_size\<close>, the attention weights of a head (the softmax of line 79, which
  the dropout of evaluation mode leaves as they are) have shape (B,T,T), every row
  \<open>(b, i)\<close> sums to 1, and the weight at every future position \<open>j > i\<close> is exactly 0.
\<close>

theorem attention_weights_invariant:
  assumes "head_ok c hs h" "dim1 x \<le> block_size c" "Head_wei h x = Inr w"
  shows "dim0 w = dim0 x \<and> dim1 w = dim1 x \<and> dim2 w = dim1 x
       \<and> (\<forall>b i. b < dim0 x \<and> i < dim1 x \<longrightarrow>
             (\<Sum>j<dim1 x. elem3 w b i j) = 1
           \<and> (\<forall>j. i < j \<and> j < dim1 x \<longrightarrow> elem3 w b i j = 0))
       \<and> Dropout_forward (head_p h) False keep w = w"
proof -
  from assms(3) obtain s where s: "Head_masked h x = Inr s" and w: "w = softmax_masked s"
    by (auto simp: Head_wei_def bind_err_eq_Inr)
  have m: "dim0 s = dim0 x" "dim1 s = dim1 x" "dim2 s = dim1 x"
    and mask: "\<And>b i j. i < dim1 x \<Longrightarrow> j < dim1 x \<Longrightarrow> (elem3 s b i j = MinusInf) = (i < j)"
    using Head_masked_mask [of h "block_size c" x s] assms s by (auto simp: head_ok_def)
  have rows: "(\<Sum>j<dim1 x. elem3 w b i j) = 1" if "i < dim1 x" for b i
    using softmax_masked_row_sum [of i s b i] mask [of i i b] that m w by simp
  have zero: "elem3 w b i j = 0" if "i < j" "j < dim1 x" for b i j
    using mask [of i j b] that w by (simp add: softmax_masked_def)
  show ?thesis
    using m rows zero w by (simp add: softmax_masked_def Dropout_forward_def)
qed

theorem attention_weights_invariant_witness:
  "\<exists>h w. Head_init (train_config 65) 64 (\<lambda>_ _ _. 0) = Inr h
         \<and> Head_wei h (zeros3 1 8 384) = Inr w
         \<and> (\<Sum>j<8. elem3 w 0 3 j) = 1 \<and> elem3 w 0 3 5 = 0"
proof -
  obtain h where h: "Head_init (train_config 65) 64 (\<lambda>_ _ _. 0) = Inr h"
    using Head_init_Inr [of "train_config 65" 64] by (auto simp: train_config_def)
  then have ok: "head_ok (train_config 65) 64 h"
    by (rule Head_init_ok)
  obtain w where w: "Head_wei h (zeros3 1 8 384) = Inr w"
    using Head_wei_spec [OF ok, of "zeros3 1 8 384"]
    by (auto simp: train_config_def zeros3_def)
  have "(\<Sum>j<8. elem3 w 0 3 j) = 1 \<and> elem3 w 0 3 5 = 0"
    using attention_weights_invariant [OF ok _ w]
    by (simp add: train_config_def zeros3_def)
  with h w show ?thesis by blast
qed

text \<open>
  C3. For an input of shape (B,T,n_embd) with \<open>T \<le> block_size\<close>, the head succeeds; its
  masked scores are \<open>query \<cdot> key\<close> of the bias-free projections times \<open>1 / sqrt head_size\<close>,
  replaced by \<^verbatim>\<open>-inf\<close> exactly at \<open>j > i\<close> (the stored mask sliced to T by T); its output
  has shape (B,T,head_size) and is the sum of the value vectors weighted by the softmax of
  the masked scores over the last axis (after the dropout of the weights in training
  mode).
\<close>

theorem Head_forward_algorithm:
  assumes "head_ok c hs h" "dim2 x = n_embd c" "0 < hs" "dim1 x \<le> block_size c"
  shows "\<exists>s out. Head_masked h x = Inr s
           \<and> (\<forall>b i j. i < dim1 x \<and> j < dim1 x \<longrightarrow>
                 elem3 s b i j = (if i < j then MinusInf else Finite (spec_score h hs x b i j)))
           \<and> Head_forward h training keep x = Inr out
           \<and> dim0 out = dim0 x \<and> dim1 out = dim1 x \<and> dim2 out = hs
           \<and> (\<forall>b i c'. i < dim1 x \<longrightarrow>
                 elem3 out b i c' = spec_head_out h hs training keep x b i c')"
proof -
  from Head_masked_spec [OF assms] obtain s where s: "Head_masked h x = Inr s"
    and e: "\<And>b i j. i < dim1 x \<Longrightarrow> j < dim1 x \<Longrightarrow> elem3 s b i j = spec_masked h hs x b i j"
    by blast
  from Head_wei_spec [OF assms] obtain w where w: "Head_wei h x = Inr w"
    and d: "dim0 w = dim0 x" "dim1 w = dim1 x" "dim2 w = dim1 x"
    and we: "\<And>b i j. i < dim1 x \<Longrightarrow> j < dim1 x \<Longrightarrow> elem3 w b i j = spec_wei h hs x b i j"
    by blast
  have v: "in_features (val h) = n_embd c" "out_features (val h) = hs" "bias (val h) = None"
    using assms(1) by (simp_all add: head_ok_def)
  define out where "out =
    \<lparr>dim0 = dim0 x, dim1 = dim1 x, dim2 = hs,
     elem3 = \<lambda>b i c'. \<Sum>j<dim1 x. elem3 (Dropout_forward (head_p h) training keep w) b i j
                          * ((\<Sum>e<n_embd c. elem3 x b j e * weight (val h) c' e) + 0)\<rparr>"
  have fw: "Head_forward h training keep x = Inr out"
    using w d v assms(2)
    by (simp add: Head_forward_def Linear_forward_Inr matmul_def out_def Dropout_forward_def)
  have oe: "elem3 out b i c' = spec_head_out h hs training keep x b i c'" if "i < dim1 x" for b i c'
    using that we assms(2)
    by (auto simp: out_def spec_head_out_def spec_dropout_def Dropout_forward_def proj_nobias_def
        intro!: sum.cong)
  show ?thesis
    using s e fw oe by (auto simp: out_def spec_masked_def)
qed

theorem Head_forward_algorithm_witness:
  "\<exists>h out. Head_init (train_config 65) 64 (\<lambda>_ _ _. 0) = Inr h
         \<and> Head_forward h False (\<lambda>_ _ _. True) (zeros3 1 8 384) = Inr out
         \<and> dim0 out = 1 \<and> dim1 out = 8 \<and> dim2 out = 64
         \<and> elem3 out 0 3 0
             = spec_head_out h 64 False (\<lambda>_ _ _. True) (zeros3 1 8 384) 0 3 0"
proof -
  obtain h where h: "Head_init (train_config 65) 64 (\<lambda>_ _ _. 0) = Inr h"
    using Head_init_Inr [of "train_config 65" 64] by (auto simp: train_config_def)
  then have ok: "head_ok (train_config 65) 64 h"
    by (rule Head_init_ok)
  show ?thesis
    using h Head_forward_algorithm [OF ok, of "zeros3 1 8 384" False "\<lambda>_ _ _. True"]
    by (auto simp: train_config_def zeros3_def)
qed

subsection \<open>The layers on two runs that agree on a prefix\<close>

text \<open>Each lemma gives, for a layer of the right shape, that the layer succeeds on both
  inputs, the shape of its output, and that the outputs agree on the same prefix. With twice
  the same input it is the statement that the layer succeeds and of the shape of its
  output.\<close>

lemma agree_upto_refl: "agree_upto i x x"
  by (simp add: agree_upto_def)

lemma Linear_agree:
  assumes "agree_upto i x y" "dim2 x = in_features l"
  shows "\<exists>x' y'. Linear_forward l x = Inr x' \<and> Linear_forward l y = Inr y'
           \<and> dim0 x' = dim0 x \<and> dim1 x' = dim1 x \<and> dim2 x' = out_features l
           \<and> agree_upto i x' y'"
  using assms by (simp add: Linear_forward_def agree_upto_def)

lemma LayerNorm_agree:
  assumes "agree_upto i x y" "dim2 x = normalized_shape lnm"
  shows "\<exists>x' y'. LayerNorm_forward lnm x = Inr x' \<and> LayerNorm_forward lnm y = Inr y'
           \<and> dim0 x' = dim0 x \<and> dim1 x' = dim1 x \<and> dim2 x' = dim2 x
           \<and> agree_upto i x' y'"
  using assms
  by (simp add: LayerNorm_forward_def agree_upto_def mean_last_def var_last_def)

lemma Dropout_agree:
  "agree_upto i x y \<Longrightarrow>
   agree_upto i (Dropout_forward p training keep x) (Dropout_forward p training keep y)"
  by (simp add: Dropout_forward_def agree_upto_def)

lemma Dropout_dims [simp]:
  "dim0 (Dropout_forward p training keep x) = dim0 x"
  "dim1 (Dropout_forward p training keep x) = dim1 x"
  "dim2 (Dropout_forward p training keep x) = dim2 x"
  by (simp_all add: Dropout_forward_def)

lemma ReLU_agree: "agree_upto i x y \<Longrightarrow> agree_upto i (ReLU x) (ReLU y)"
  by (simp add: ReLU_def agree_upto_def)

lemma ReLU_dims [simp]:
  "dim0 (ReLU x) = dim0 x" "dim1 (ReLU x) = dim1 x" "dim2 (ReLU x) = dim2 x"
  by (simp_all add: ReLU_def)

lemma add3_agree:
  assumes "agree_upto i x y" "agree_upto i a a'"
    and "dim0 a = dim0 x" "dim1 a = dim1 x" "dim2 a = dim2 x"
  shows "\<exists>x' y'. add3 x a = Inr x' \<and> add3 y a' = Inr y'
           \<and> dim0 x' = dim0 x \<and> dim1 x' = dim1 x \<and> dim2 x' = dim2 x
           \<and> (\<forall>b t c. b < dim0 x \<and> t < dim1 x \<and> c < dim2 x
                 \<longrightarrow> elem3 x' b t c = elem3 x b t c + elem3 a b t c)
           \<and> agree_upto i x' y'"
  using assms
  by (auto simp: add3_def bdim_def agree_upto_def bix_def)


lemma Head_forward_spec:
  assumes "head_ok c hs h" "dim2 x = n_embd c" "0 < hs" "dim1 x \<le> block_size c"
  shows "\<exists>out. Head_forward h training keep x = Inr out
           \<and> dim0 out = dim0 x \<and> dim1 out = dim1 x \<and> dim2 out = hs
           \<and> (\<forall>b i c'. i < dim1 x \<longrightarrow>
                 elem3 out b i c' = spec_head_out h hs training keep x b i c')"
proof -
  from Head_wei_spec [OF assms] obtain w where w: "Head_wei h x = Inr w"
    and d: "dim0 w = dim0 x" "dim1 w = dim1 x" "dim2 w = dim1 x"
    and we: "\<And>b i j. i < dim1 x \<Longrightarrow> j < dim1 x \<Longrightarrow> elem3 w b i j = spec_wei h hs x b i j"
    by blast
  have v: "in_features (val h) = n_embd c" "out_features (val h) = hs" "bias (val h) = None"
    using assms(1) by (simp_all add: head_ok_def)
  define out where "out =
    \<lparr>dim0 = dim0 x, dim1 = dim1 x, dim2 = hs,
     elem3 = \<lambda>b i c'. \<Sum>j<dim1 x. elem3 (Dropout_forward (head_p h) training keep w) b i j
                          * ((\<Sum>e<n_embd c. elem3 x b j e * weight (val h) c' e) + 0)\<rparr>"
  have fw: "Head_forward h training keep x = Inr out"
    using w d v assms(2)
    by (simp add: Head_forward_def Linear_forward_Inr matmul_def out_def Dropout_forward_def)
  have oe: "elem3 out b i c' = spec_head_out h hs training keep x b i c'" if "i < dim1 x" for b i c'
    using that we assms(2)
    by (auto simp: out_def spec_head_out_def spec_dropout_def Dropout_forward_def proj_nobias_def
        intro!: sum.cong)
  show ?thesis
    using fw oe by (auto simp: out_def)
qed

lemma proj_nobias_agree:
  "agree_upto i x y \<Longrightarrow> b < dim0 x \<Longrightarrow> t \<le> i \<Longrightarrow> t < dim1 x \<Longrightarrow>
   proj_nobias l x b t c = proj_nobias l y b t c"
  by (simp add: proj_nobias_def agree_upto_def)

lemma spec_masked_agree:
  assumes "agree_upto i x y" "b < dim0 x" "t \<le> i" "t < dim1 x"
  shows "spec_masked h hs x b t j = spec_masked h hs y b t j"
proof (cases "t < j")
  case True
  then show ?thesis by (simp add: spec_masked_def)
next
  case False
  then have "j \<le> i" "j < dim1 x" using assms by simp_all
  then show ?thesis
    using assms False
    by (simp add: spec_masked_def spec_score_def proj_nobias_agree [OF assms(1)])
qed

lemma spec_wei_agree:
  assumes "agree_upto i x y" "b < dim0 x" "t \<le> i" "t < dim1 x"
  shows "spec_wei h hs x b t j = spec_wei h hs y b t j"
proof -
  have "dim1 x = dim1 y" using assms(1) by (simp add: agree_upto_def)
  then show ?thesis
    by (simp add: spec_wei_def spec_masked_agree [OF assms])
qed

lemma spec_wei_future: "t < j \<Longrightarrow> spec_wei h hs x b t j = 0"
  by (simp add: spec_wei_def spec_masked_def)

lemma spec_head_out_agree:
  assumes "agree_upto i x y" "b < dim0 x" "t \<le> i" "t < dim1 x"
  shows "spec_head_out h hs training keep x b t c = spec_head_out h hs training keep y b t c"
proof -
  have d: "dim1 x = dim1 y" using assms(1) by (simp add: agree_upto_def)
  have "spec_dropout (head_p h) training (keep b t j) (spec_wei h hs x b t j)
          * proj_nobias (val h) x b j c
      = spec_dropout (head_p h) training (keep b t j) (spec_wei h hs y b t j)
          * proj_nobias (val h) y b j c" if "j < dim1 x" for j
  proof (cases "t < j")
    case True
    then show ?thesis by (simp add: spec_wei_future spec_dropout_def)
  next
    case False
    then have "j \<le> i" using assms by simp
    then show ?thesis
      using that assms
      by (simp add: spec_wei_agree [OF assms] proj_nobias_agree [OF assms(1)])
  qed
  then show ?thesis
    unfolding spec_head_out_def d [symmetric] by (intro sum.cong) simp_all
qed

lemma Head_agree:
  assumes "head_ok c hs h" "dim2 x = n_embd c" "0 < hs" "dim1 x \<le> block_size c"
    and "agree_upto i x y"
  shows "\<exists>x' y'. Head_forward h training keep x = Inr x' \<and> Head_forward h training keep y = Inr y'
           \<and> dim0 x' = dim0 x \<and> dim1 x' = dim1 x \<and> dim2 x' = hs
           \<and> agree_upto i x' y'"
proof -
  have dy: "dim0 y = dim0 x" "dim1 y = dim1 x" "dim2 y = dim2 x"
    using assms(5) by (simp_all add: agree_upto_def)
  from Head_forward_spec [OF assms(1-4), of training keep] obtain x'
    where x': "Head_forward h training keep x = Inr x'"
      "dim0 x' = dim0 x" "dim1 x' = dim1 x" "dim2 x' = hs"
      "\<And>b t c'. t < dim1 x \<Longrightarrow> elem3 x' b t c' = spec_head_out h hs training keep x b t c'"
    by blast
  from Head_forward_spec [OF assms(1), of y training keep] assms(2-4) dy obtain y'
    where y': "Head_forward h training keep y = Inr y'"
      "dim0 y' = dim0 x" "dim1 y' = dim1 x" "dim2 y' = hs"
      "\<And>b t c'. t < dim1 x \<Longrightarrow> elem3 y' b t c' = spec_head_out h hs training keep y b t c'"
    by auto
  have "agree_upto i x' y'"
    using x'(2-5) y'(2-5) spec_head_out_agree [OF assms(5)]
    by (simp add: agree_upto_def)
  with x' y' show ?thesis by blast
qed

lemma heads_agree:
  assumes "\<forall>h\<in>set hl. head_ok c hs h" "dim2 x = n_embd c" "0 < hs" "dim1 x \<le> block_size c"
    and "agree_upto i x y"
  shows "\<exists>xs ys. heads_forward hl training kp k x = Inr xs
           \<and> heads_forward hl training kp k y = Inr ys
           \<and> length xs = length hl
           \<and> list_all2 (\<lambda>x' y'. dim0 x' = dim0 x \<and> dim1 x' = dim1 x \<and> dim2 x' = hs
                                 \<and> agree_upto i x' y') xs ys"
  using assms(1)
proof (induction hl arbitrary: k)
  case Nil
  then show ?case by simp
next
  case (Cons h hl)
  from Cons.prems have ok: "head_ok c hs h" and rest: "\<forall>h\<in>set hl. head_ok c hs h"
    by simp_all
  from Head_agree [OF ok assms(2-5), of training "kp k"] obtain x' y'
    where h: "Head_forward h training (kp k) x = Inr x'"
      "Head_forward h training (kp k) y = Inr y'"
      "dim0 x' = dim0 x \<and> dim1 x' = dim1 x \<and> dim2 x' = hs \<and> agree_upto i x' y'"
    by blast
  from Cons.IH [OF rest, of "Suc k"] obtain xs ys
    where t: "heads_forward hl training kp (Suc k) x = Inr xs"
      "heads_forward hl training kp (Suc k) y = Inr ys"
      "length xs = length hl"
      "list_all2 (\<lambda>x' y'. dim0 x' = dim0 x \<and> dim1 x' = dim1 x \<and> dim2 x' = hs
                            \<and> agree_upto i x' y') xs ys"
    by blast
  show ?case
    using h t by simp
qed

lemma cat2_agree:
  assumes "agree_upto i a a'" "agree_upto i r r'" "dim0 a = dim0 r" "dim1 a = dim1 r"
  shows "\<exists>x' y'. cat2_last a r = Inr x' \<and> cat2_last a' r' = Inr y'
           \<and> dim0 x' = dim0 a \<and> dim1 x' = dim1 a \<and> dim2 x' = dim2 a + dim2 r
           \<and> agree_upto i x' y'"
  using assms by (auto simp: cat2_last_def agree_upto_def)

lemma cat_agree:
  assumes "list_all2 (\<lambda>x' y'. dim0 x' = B \<and> dim1 x' = T \<and> dim2 x' = hs
                                 \<and> agree_upto i x' y') xs ys" "xs \<noteq> []"
  shows "\<exists>x' y'. cat_last xs = Inr x' \<and> cat_last ys = Inr y'
           \<and> dim0 x' = B \<and> dim1 x' = T \<and> dim2 x' = hs * length xs
           \<and> agree_upto i x' y'"
  using assms
proof (induction xs arbitrary: ys rule: cat_last.induct)
  case 1
  then show ?case by simp
next
  case (2 a)
  then show ?case by (auto simp: list_all2_Cons1)
next
  case (3 a b ts)
  from "3.prems" obtain a' ys' where ys: "ys = a' # ys'"
    and a: "dim0 a = B" "dim1 a = T" "dim2 a = hs" "agree_upto i a a'"
    and rest: "list_all2 (\<lambda>x' y'. dim0 x' = B \<and> dim1 x' = T \<and> dim2 x' = hs
                                 \<and> agree_upto i x' y') (b # ts) ys'"
    by (auto simp: list_all2_Cons1)
  from rest obtain b' ts' where ys': "ys' = b' # ts'"
    by (auto simp: list_all2_Cons1)
  from "3.IH" [OF rest] obtain r r' where r: "cat_last (b # ts) = Inr r" "cat_last ys' = Inr r'"
    "dim0 r = B" "dim1 r = T" "dim2 r = hs * length (b # ts)" "agree_upto i r r'"
    by auto
  from cat2_agree [OF a(4) r(6)] a r obtain x' y' where
    c: "cat2_last a r = Inr x'" "cat2_last a' r' = Inr y'"
      "dim0 x' = dim0 a" "dim1 x' = dim1 a" "dim2 x' = dim2 a + dim2 r" "agree_upto i x' y'"
    by auto
  show ?case
    using c r a ys ys' by simp
qed


lemma MultiHeadAttention_agree:
  assumes "mha_ok c nh hs m" "0 < nh" "0 < hs" "dim2 x = n_embd c" "dim1 x \<le> block_size c"
    and "agree_upto i x y"
  shows "\<exists>x' y'. MultiHeadAttention_forward m training nz x = Inr x'
           \<and> MultiHeadAttention_forward m training nz y = Inr y'
           \<and> dim0 x' = dim0 x \<and> dim1 x' = dim1 x \<and> dim2 x' = n_embd c
           \<and> agree_upto i x' y'"
proof -
  have hk: "\<forall>h\<in>set (heads m). head_ok c hs h" and len: "length (heads m) = nh"
    and pr: "in_features (proj m) = hs * nh" "out_features (proj m) = n_embd c"
    using assms(1) by (simp_all add: mha_ok_def)
  from heads_agree [OF hk assms(4,3,5,6), of training "head_keep nz" 0] obtain xs ys
    where hs: "heads_forward (heads m) training (head_keep nz) 0 x = Inr xs"
      "heads_forward (heads m) training (head_keep nz) 0 y = Inr ys"
      "length xs = length (heads m)"
      "list_all2 (\<lambda>x' y'. dim0 x' = dim0 x \<and> dim1 x' = dim1 x \<and> dim2 x' = hs
                            \<and> agree_upto i x' y') xs ys"
    by blast
  have ne: "xs \<noteq> []" using hs(3) len assms(2) by auto
  from cat_agree [OF hs(4) ne] obtain cx cy
    where ct: "cat_last xs = Inr cx" "cat_last ys = Inr cy"
      "dim0 cx = dim0 x" "dim1 cx = dim1 x" "dim2 cx = hs * length xs" "agree_upto i cx cy"
    by blast
  have "dim2 cx = in_features (proj m)" using ct(5) hs(3) len pr by simp
  from Linear_agree [OF ct(6) this] obtain px py
    where p: "Linear_forward (proj m) cx = Inr px" "Linear_forward (proj m) cy = Inr py"
      "dim0 px = dim0 cx" "dim1 px = dim1 cx" "dim2 px = out_features (proj m)"
      "agree_upto i px py"
    by blast
  show ?thesis
    using hs ct p pr Dropout_agree [OF p(6)]
    by (simp add: MultiHeadAttention_forward_def)
qed

lemma FeedForward_agree:
  assumes "feedforward_ok n f" "dim2 x = n" "agree_upto i x y"
  shows "\<exists>x' y'. FeedForward_forward f training keep x = Inr x'
           \<and> FeedForward_forward f training keep y = Inr y'
           \<and> dim0 x' = dim0 x \<and> dim1 x' = dim1 x \<and> dim2 x' = n
           \<and> agree_upto i x' y'"
proof -
  have ok: "in_features (fc1 f) = n" "out_features (fc1 f) = 4 * n"
    "in_features (fc2 f) = 4 * n" "out_features (fc2 f) = n"
    using assms(1) by (simp_all add: feedforward_ok_def)
  have "dim2 x = in_features (fc1 f)" using ok assms(2) by simp
  from Linear_agree [OF assms(3) this] obtain hx hy
    where h: "Linear_forward (fc1 f) x = Inr hx" "Linear_forward (fc1 f) y = Inr hy"
      "dim0 hx = dim0 x" "dim1 hx = dim1 x" "dim2 hx = out_features (fc1 f)"
      "agree_upto i hx hy"
    by blast
  have "dim2 (ReLU hx) = in_features (fc2 f)" using ok h by simp
  from Linear_agree [OF ReLU_agree [OF h(6)] this] obtain ox oy
    where out: "Linear_forward (fc2 f) (ReLU hx) = Inr ox" "Linear_forward (fc2 f) (ReLU hy) = Inr oy"
      "dim0 ox = dim0 (ReLU hx)" "dim1 ox = dim1 (ReLU hx)" "dim2 ox = out_features (fc2 f)"
      "agree_upto i ox oy"
    by blast
  show ?thesis
    using h out ok Dropout_agree [OF out(6)]
    by (simp add: FeedForward_forward_def)
qed

lemma Block_agree:
  assumes "block_ok c blk" "0 < n_head c" "n_head c \<le> n_embd c"
    and "dim2 x = n_embd c" "dim1 x \<le> block_size c" "agree_upto i x y"
  shows "\<exists>x' y'. Block_forward blk training nz x = Inr x'
           \<and> Block_forward blk training nz y = Inr y'
           \<and> dim0 x' = dim0 x \<and> dim1 x' = dim1 x \<and> dim2 x' = n_embd c
           \<and> agree_upto i x' y'"
proof -
  have ok: "mha_ok c (n_head c) (n_embd c div n_head c) (sa blk)"
    "feedforward_ok (n_embd c) (ffwd blk)"
    "normalized_shape (ln1 blk) = n_embd c" "normalized_shape (ln2 blk) = n_embd c"
    using assms(1) by (simp_all add: block_ok_def)
  have hs: "0 < n_embd c div n_head c"
    using assms(2,3) by (simp add: div_greater_zero_iff)
  have dy: "dim0 y = dim0 x" "dim1 y = dim1 x" "dim2 y = dim2 x"
    using assms(6) by (simp_all add: agree_upto_def)
  have "dim2 x = normalized_shape (ln1 blk)" using ok assms(4) by simp
  from LayerNorm_agree [OF assms(6) this] obtain n1 n1'
    where n1: "LayerNorm_forward (ln1 blk) x = Inr n1" "LayerNorm_forward (ln1 blk) y = Inr n1'"
      "dim0 n1 = dim0 x" "dim1 n1 = dim1 x" "dim2 n1 = dim2 x" "agree_upto i n1 n1'"
    by blast
  have "dim2 n1 = n_embd c" "dim1 n1 \<le> block_size c" using n1 assms(4,5) by simp_all
  from MultiHeadAttention_agree [OF ok(1) assms(2) hs this n1(6), of training "sa_noise nz"]
  obtain a a'
    where a: "MultiHeadAttention_forward (sa blk) training (sa_noise nz) n1 = Inr a"
      "MultiHeadAttention_forward (sa blk) training (sa_noise nz) n1' = Inr a'"
      "dim0 a = dim0 n1" "dim1 a = dim1 n1" "dim2 a = n_embd c" "agree_upto i a a'"
    by blast
  have "dim0 a = dim0 x" "dim1 a = dim1 x" "dim2 a = dim2 x" using a n1 assms(4) by simp_all
  from add3_agree [OF assms(6) a(6) this] obtain x1 y1
    where x1: "add3 x a = Inr x1" "add3 y a' = Inr y1"
      "dim0 x1 = dim0 x" "dim1 x1 = dim1 x" "dim2 x1 = dim2 x" "agree_upto i x1 y1"
    by blast
  have "dim2 x1 = normalized_shape (ln2 blk)" using ok x1 assms(4) by simp
  from LayerNorm_agree [OF x1(6) this] obtain n2 n2'
    where n2: "LayerNorm_forward (ln2 blk) x1 = Inr n2" "LayerNorm_forward (ln2 blk) y1 = Inr n2'"
      "dim0 n2 = dim0 x1" "dim1 n2 = dim1 x1" "dim2 n2 = dim2 x1" "agree_upto i n2 n2'"
    by blast
  have "dim2 n2 = n_embd c" using n2 x1 assms(4) by simp
  from FeedForward_agree [OF ok(2) this n2(6), of training "ffwd_keep nz"] obtain f f'
    where f: "FeedForward_forward (ffwd blk) training (ffwd_keep nz) n2 = Inr f"
      "FeedForward_forward (ffwd blk) training (ffwd_keep nz) n2' = Inr f'"
      "dim0 f = dim0 n2" "dim1 f = dim1 n2" "dim2 f = n_embd c" "agree_upto i f f'"
    by blast
  have "dim0 f = dim0 x1" "dim1 f = dim1 x1" "dim2 f = dim2 x1"
    using f n2 x1 assms(4) by simp_all
  from add3_agree [OF x1(6) f(6) this] obtain x2 y2
    where x2: "add3 x1 f = Inr x2" "add3 y1 f' = Inr y2"
      "dim0 x2 = dim0 x1" "dim1 x2 = dim1 x1" "dim2 x2 = dim2 x1" "agree_upto i x2 y2"
    by blast
  show ?thesis
    using n1 a x1 n2 f x2 assms(4)
    by (simp add: Block_forward_def)
qed

lemma run_blocks_agree:
  assumes "\<forall>blk\<in>set bs. block_ok c blk" "0 < n_head c" "n_head c \<le> n_embd c"
    and "dim2 x = n_embd c" "dim1 x \<le> block_size c" "agree_upto i x y"
  shows "\<exists>x' y'. run_blocks bs training nz k x = Inr x'
           \<and> run_blocks bs training nz k y = Inr y'
           \<and> dim0 x' = dim0 x \<and> dim1 x' = dim1 x \<and> dim2 x' = n_embd c
           \<and> agree_upto i x' y'"
  using assms(1,4,5,6)
proof (induction bs arbitrary: k x y)
  case Nil
  then show ?case by simp
next
  case (Cons blk bs)
  from Cons.prems(1) have ok: "block_ok c blk" and rest: "\<forall>blk\<in>set bs. block_ok c blk"
    by simp_all
  from Block_agree [OF ok assms(2,3) Cons.prems(2,3,4), of training "nz k"] obtain x1 y1
    where b: "Block_forward blk training (nz k) x = Inr x1"
      "Block_forward blk training (nz k) y = Inr y1"
      "dim0 x1 = dim0 x" "dim1 x1 = dim1 x" "dim2 x1 = n_embd c" "agree_upto i x1 y1"
    by blast
  have "dim1 x1 \<le> block_size c" using b Cons.prems(3) by simp
  from Cons.IH [OF rest b(5) this b(6), of "Suc k"] obtain x' y'
    where r: "run_blocks bs training nz (Suc k) x1 = Inr x'"
      "run_blocks bs training nz (Suc k) y1 = Inr y'"
      "dim0 x' = dim0 x1" "dim1 x' = dim1 x1" "dim2 x' = n_embd c" "agree_upto i x' y'"
    by blast
  show ?case
    using b r by simp
qed

subsection \<open>The forward pass\<close>

lemma add3_pos_agree:
  assumes "agree_upto i x y" "dim1 x = rows2 p" "dim2 x = cols2 p"
  shows "\<exists>x' y'. add3 x (unsqueeze0 p) = Inr x' \<and> add3 y (unsqueeze0 p) = Inr y'
           \<and> dim0 x' = dim0 x \<and> dim1 x' = dim1 x \<and> dim2 x' = dim2 x
           \<and> agree_upto i x' y'"
  using assms
  by (auto simp: add3_def bdim_def agree_upto_def bix_def unsqueeze0_def)

lemma tokens_ok_entry:
  "tokens_ok c idx \<Longrightarrow> b < rows2 idx \<Longrightarrow> t < cols2 idx \<Longrightarrow>
   0 \<le> elem2 idx b t \<and> elem2 idx b t < int (vocab_size c)"
  by (simp add: tokens_ok_def)

lemma Embedding_forward2_Inr:
  assumes "tokens_ok c idx" "num_embeddings e = vocab_size c"
  shows "Embedding_forward2 e idx =
           Inr \<lparr>dim0 = rows2 idx, dim1 = cols2 idx, dim2 = embedding_dim e,
                elem3 = \<lambda>b t c. emb_weight e (nat (elem2 idx b t)) c\<rparr>"
proof -
  have "\<not> (\<exists>b\<in>{0..<rows2 idx}. \<exists>t\<in>{0..<cols2 idx}.
           elem2 idx b t < 0 \<or> int (num_embeddings e) \<le> elem2 idx b t)"
    using tokens_ok_entry [OF assms(1)] assms(2) by (auto simp: not_less not_le)
  then show ?thesis
    by (simp add: Embedding_forward2_def)
qed

lemma Embedding_arange_Inr:
  assumes "T \<le> num_embeddings e"
  shows "Embedding_forward1 e (arange T) =
           Inr \<lparr>rows2 = T, cols2 = embedding_dim e,
                elem2 = \<lambda>t c. emb_weight e (nat (int t)) c\<rparr>"
  using assms by (auto simp: Embedding_forward1_def arange_def)

lemma Embedding_arange_Inl:
  assumes "num_embeddings e < T"
  shows "Embedding_forward1 e (arange T) = Inl (lookup_error e)"
proof -
  have "\<exists>t\<in>{0..<T}. int (num_embeddings e) \<le> int t"
    using assms by (intro bexI [where x = "num_embeddings e"]) simp_all
  then show ?thesis
    by (simp add: Embedding_forward1_def arange_def)
qed

lemma Embedding_forward2_error:
  "Embedding_forward2 e idx = Inl err \<Longrightarrow> err = lookup_error e"
  by (auto simp: Embedding_forward2_def split: if_splits)

lemma forward_agree:
  assumes "gpt_ok c m" "0 < n_head c" "n_head c \<le> n_embd c"
    and "tokens_ok c idx" "tokens_ok c idx'" "cols2 idx \<le> block_size c"
    and "same_prefix i idx idx'"
  shows "\<exists>lg lg'.
           (\<forall>tg. forward m training nz idx tg =
              (case tg of None \<Rightarrow> Inr (Logits3 lg, None)
               | Some tg \<Rightarrow>
                   bind_err (view_BT tg (dim0 lg * dim1 lg)) (\<lambda>tg1.
                   bind_err (cross_entropy (view_BT_C lg) tg1) (\<lambda>loss.
                     Inr (Logits2 (view_BT_C lg), Some loss)))))
         \<and> forward m training nz idx' None = Inr (Logits3 lg', None)
         \<and> dim0 lg = rows2 idx \<and> dim1 lg = cols2 idx \<and> dim2 lg = vocab_size c
         \<and> agree_upto i lg lg'"
proof -
  have ok: "num_embeddings (token_embedding m) = vocab_size c"
    "embedding_dim (token_embedding m) = n_embd c"
    "num_embeddings (position_embedding_table m) = block_size c"
    "embedding_dim (position_embedding_table m) = n_embd c"
    "\<forall>blk\<in>set (blocks m). block_ok c blk"
    "normalized_shape (ln_f m) = n_embd c"
    "in_features (lm_head m) = n_embd c" "out_features (lm_head m) = vocab_size c"
    using assms(1) by (simp_all add: gpt_ok_def)
  have sh: "rows2 idx' = rows2 idx" "cols2 idx' = cols2 idx"
    using assms(7) by (simp_all add: same_prefix_def)
  define te where "te = \<lparr>dim0 = rows2 idx, dim1 = cols2 idx, dim2 = n_embd c,
      elem3 = \<lambda>b t c. emb_weight (token_embedding m) (nat (elem2 idx b t)) c\<rparr>"
  define te' where "te' = \<lparr>dim0 = rows2 idx, dim1 = cols2 idx, dim2 = n_embd c,
      elem3 = \<lambda>b t c. emb_weight (token_embedding m) (nat (elem2 idx' b t)) c\<rparr>"
  define pe where "pe = \<lparr>rows2 = cols2 idx, cols2 = n_embd c,
      elem2 = \<lambda>t c. emb_weight (position_embedding_table m) (nat (int t)) c\<rparr>"
  have e1: "Embedding_forward2 (token_embedding m) idx = Inr te"
    using Embedding_forward2_Inr [OF assms(4) ok(1)] ok(2) by (simp add: te_def)
  have e1': "Embedding_forward2 (token_embedding m) idx' = Inr te'"
    using Embedding_forward2_Inr [OF assms(5) ok(1)] ok(2) sh by (simp add: te'_def)
  have e2: "Embedding_forward1 (position_embedding_table m) (arange (cols2 idx)) = Inr pe"
    using Embedding_arange_Inr [of "cols2 idx" "position_embedding_table m"] assms(6) ok(3,4)
    by (simp add: pe_def)
  have ag0: "agree_upto i te te'"
    using assms(7) by (simp add: agree_upto_def te_def te'_def same_prefix_def)
  have "dim1 te = rows2 pe" "dim2 te = cols2 pe" by (simp_all add: te_def pe_def)
  from add3_pos_agree [OF ag0 this] obtain x0 y0
    where x0: "add3 te (unsqueeze0 pe) = Inr x0" "add3 te' (unsqueeze0 pe) = Inr y0"
      "dim0 x0 = dim0 te" "dim1 x0 = dim1 te" "dim2 x0 = dim2 te" "agree_upto i x0 y0"
    by blast
  have "dim2 x0 = n_embd c" "dim1 x0 \<le> block_size c"
    using x0 assms(6) by (simp_all add: te_def)
  from run_blocks_agree [OF ok(5) assms(2,3) this x0(6), of training nz 0] obtain x1 y1
    where x1: "run_blocks (blocks m) training nz 0 x0 = Inr x1"
      "run_blocks (blocks m) training nz 0 y0 = Inr y1"
      "dim0 x1 = dim0 x0" "dim1 x1 = dim1 x0" "dim2 x1 = n_embd c" "agree_upto i x1 y1"
    by blast
  have "dim2 x1 = normalized_shape (ln_f m)" using x1 ok by simp
  from LayerNorm_agree [OF x1(6) this] obtain x2 y2
    where x2: "LayerNorm_forward (ln_f m) x1 = Inr x2" "LayerNorm_forward (ln_f m) y1 = Inr y2"
      "dim0 x2 = dim0 x1" "dim1 x2 = dim1 x1" "dim2 x2 = dim2 x1" "agree_upto i x2 y2"
    by blast
  have "dim2 x2 = in_features (lm_head m)" using x2 x1 ok by simp
  from Linear_agree [OF x2(6) this] obtain lg lg'
    where lg: "Linear_forward (lm_head m) x2 = Inr lg" "Linear_forward (lm_head m) y2 = Inr lg'"
      "dim0 lg = dim0 x2" "dim1 lg = dim1 x2" "dim2 lg = out_features (lm_head m)"
      "agree_upto i lg lg'"
    by blast
  have f: "forward m training nz idx tg =
              (case tg of None \<Rightarrow> Inr (Logits3 lg, None)
               | Some tg \<Rightarrow>
                   bind_err (view_BT tg (dim0 lg * dim1 lg)) (\<lambda>tg1.
                   bind_err (cross_entropy (view_BT_C lg) tg1) (\<lambda>loss.
                     Inr (Logits2 (view_BT_C lg), Some loss))))" for tg
    using e1 e2 x0 x1 x2 lg by (simp add: forward_def Let_def split: option.split)
  have f': "forward m training nz idx' None = Inr (Logits3 lg', None)"
    using e1' e2 x0 x1 x2 lg sh by (simp add: forward_def Let_def)
  have d: "dim0 lg = rows2 idx" "dim1 lg = cols2 idx" "dim2 lg = vocab_size c"
    using lg x2 x1 x0 ok by (simp_all add: te_def)
  show ?thesis
    using f f' d lg(6) by blast
qed

lemma forward_overflow:
  assumes "gpt_ok c m" "block_size c < cols2 idx"
  shows "\<exists>err. forward m training nz idx tg = Inl err
           \<and> (err = IndexError \<or> err = RuntimeError)
           \<and> (0 < block_size c \<and> 0 < vocab_size c \<longrightarrow> err = IndexError)"
proof (cases "Embedding_forward2 (token_embedding m) idx")
  case (Inl err)
  have "num_embeddings (token_embedding m) = vocab_size c"
    using assms(1) by (simp add: gpt_ok_def)
  then have "forward m training nz idx tg
      = Inl (if vocab_size c = 0 then RuntimeError else IndexError)"
    using Inl Embedding_forward2_error [OF Inl]
    by (simp add: forward_def Let_def lookup_error_def)
  then show ?thesis by simp
next
  case (Inr te)
  have n: "num_embeddings (position_embedding_table m) = block_size c"
    using assms(1) by (simp add: gpt_ok_def)
  then have "num_embeddings (position_embedding_table m) < cols2 idx"
    using assms(2) by simp
  then have "forward m training nz idx tg
      = Inl (if block_size c = 0 then RuntimeError else IndexError)"
    using Inr n by (simp add: forward_def Let_def Embedding_arange_Inl lookup_error_def)
  then show ?thesis by simp
qed

subsection \<open>The constructors\<close>

lemma heads_init_ok:
  "heads_init c hs g i n = Inr hl \<Longrightarrow> length hl = n \<and> (\<forall>h\<in>set hl. head_ok c hs h)"
proof (induction n arbitrary: i hl)
  case 0
  then show ?case by simp
next
  case (Suc n)
  from Suc.prems obtain h hl' where h: "Head_init c hs (sub g i) = Inr h"
    and r: "heads_init c hs g (Suc i) n = Inr hl'" and hl: "hl = h # hl'"
    by (auto simp: bind_err_eq_Inr)
  show ?case
    using Suc.IH [OF r] Head_init_ok [OF h] hl by simp
qed

lemma heads_init_Inr:
  assumes "0 \<le> dropout c" "dropout c \<le> 1"
  shows "\<exists>hl. heads_init c hs g i n = Inr hl"
proof (induction n arbitrary: i)
  case 0
  then show ?case by simp
next
  case (Suc n)
  from Head_init_Inr [OF assms, of hs "sub g i"] obtain h
    where "Head_init c hs (sub g i) = Inr h" by blast
  moreover from Suc [of "Suc i"] obtain hl where "heads_init c hs g (Suc i) n = Inr hl"
    by blast
  ultimately show ?case by simp
qed

lemma MultiHeadAttention_init_ok:
  "MultiHeadAttention_init c nh hs g = Inr m \<Longrightarrow> mha_ok c nh hs m"
  by (auto simp: MultiHeadAttention_init_def bind_err_eq_Inr Let_def mha_ok_def Linear_init_def
      dest: heads_init_ok)

lemma MultiHeadAttention_init_Inr:
  assumes "0 \<le> dropout c" "dropout c \<le> 1"
  shows "\<exists>m. MultiHeadAttention_init c nh hs g = Inr m"
proof -
  from heads_init_Inr [OF assms, of hs "sub g 0" 0 nh] obtain hl
    where "heads_init c hs (sub g 0) 0 nh = Inr hl" by blast
  then show ?thesis
    using assms by (simp add: MultiHeadAttention_init_def Let_def Dropout_init_Inr)
qed

lemma FeedForward_init_ok:
  "FeedForward_init c n g = Inr f \<Longrightarrow> feedforward_ok n f"
  by (auto simp: FeedForward_init_def bind_err_eq_Inr Let_def feedforward_ok_def Linear_init_def)

lemma FeedForward_init_Inr:
  "0 \<le> dropout c \<Longrightarrow> dropout c \<le> 1 \<Longrightarrow> \<exists>f. FeedForward_init c n g = Inr f"
  by (simp add: FeedForward_init_def Let_def Dropout_init_Inr)

lemma Block_init_ok:
  "Block_init c (n_embd c) (n_head c) g = Inr blk \<Longrightarrow> block_ok c blk"
  by (auto simp: Block_init_def bind_err_eq_Inr Let_def block_ok_def LayerNorm_init_def
      split: if_splits dest: MultiHeadAttention_init_ok FeedForward_init_ok)

lemma Block_init_Inr:
  assumes "0 < nh" "0 \<le> dropout c" "dropout c \<le> 1"
  shows "\<exists>blk. Block_init c ne nh g = Inr blk"
proof -
  from MultiHeadAttention_init_Inr [OF assms(2,3), of nh "ne div nh" "sub g 0"] obtain s
    where "MultiHeadAttention_init c nh (ne div nh) (sub g 0) = Inr s" by blast
  moreover from FeedForward_init_Inr [OF assms(2,3), of ne "sub g 1"] obtain f
    where "FeedForward_init c ne (sub g 1) = Inr f" by blast
  ultimately show ?thesis
    using assms(1) by (simp add: Block_init_def Let_def)
qed

lemma Block_init_zero_heads: "Block_init c ne 0 g = Inl ZeroDivisionError"
  by (simp add: Block_init_def)

lemma blocks_init_ok:
  "blocks_init c g i n = Inr bs \<Longrightarrow> length bs = n \<and> (\<forall>blk\<in>set bs. block_ok c blk)"
proof (induction n arbitrary: i bs)
  case 0
  then show ?case by simp
next
  case (Suc n)
  from Suc.prems obtain blk bs' where b: "Block_init c (n_embd c) (n_head c) (sub g i) = Inr blk"
    and r: "blocks_init c g (Suc i) n = Inr bs'" and bs: "bs = blk # bs'"
    by (auto simp: bind_err_eq_Inr)
  show ?case
    using Suc.IH [OF r] Block_init_ok [OF b] bs by simp
qed

lemma blocks_init_Inr:
  assumes "0 < n_head c" "0 \<le> dropout c" "dropout c \<le> 1"
  shows "\<exists>bs. blocks_init c g i n = Inr bs"
proof (induction n arbitrary: i)
  case 0
  then show ?case by simp
next
  case (Suc n)
  from Block_init_Inr [OF assms, of "n_embd c" "sub g i"] obtain blk
    where "Block_init c (n_embd c) (n_head c) (sub g i) = Inr blk" by blast
  moreover from Suc [of "Suc i"] obtain bs where "blocks_init c g (Suc i) n = Inr bs"
    by blast
  ultimately show ?case by simp
qed

lemma init_weights_head_ok: "head_ok c hs h \<Longrightarrow> head_ok c hs (init_weights_head gn h)"
  by (simp add: head_ok_def init_weights_head_def init_weights_linear_def)

lemma init_weights_heads_ok:
  "\<forall>h\<in>set hl. head_ok c hs h \<Longrightarrow>
   length (init_weights_heads gn i hl) = length hl
     \<and> (\<forall>h\<in>set (init_weights_heads gn i hl). head_ok c hs h)"
  by (induction hl arbitrary: i) (simp_all add: init_weights_head_ok)

lemma init_weights_block_ok: "block_ok c blk \<Longrightarrow> block_ok c (init_weights_block gn blk)"
  using init_weights_heads_ok [of "heads (sa blk)" c "n_embd c div n_head c"]
  by (simp add: block_ok_def mha_ok_def feedforward_ok_def init_weights_block_def
      init_weights_linear_def)

lemma init_weights_blocks_ok:
  "\<forall>blk\<in>set bs. block_ok c blk \<Longrightarrow>
   length (init_weights_blocks gn i bs) = length bs
     \<and> (\<forall>blk\<in>set (init_weights_blocks gn i bs). block_ok c blk)"
  by (induction bs arbitrary: i) (simp_all add: init_weights_block_ok)

lemma GPTLanguageModel_init_ok:
  assumes "GPTLanguageModel_init c g gn = Inr m"
  shows "gpt_ok c m"
proof -
  from assms obtain bs where bs: "blocks_init c (sub g 2) 0 (n_layer c) = Inr bs"
    and m: "m = \<lparr>token_embedding =
                   init_weights_embedding (gn [0]) (Embedding_init (vocab_size c) (n_embd c) (g [0])),
                 position_embedding_table =
                   init_weights_embedding (gn [1]) (Embedding_init (block_size c) (n_embd c) (g [1])),
                 blocks = init_weights_blocks (sub gn 2) 0 bs,
                 ln_f = LayerNorm_init (n_embd c),
                 lm_head = init_weights_linear (gn [3])
                   (Linear_init (n_embd c) (vocab_size c) True (g [3]) (g [4] 0))\<rparr>"
    by (auto simp: GPTLanguageModel_init_def Let_def bind_err_eq_Inr)
  from blocks_init_ok [OF bs] have "length bs = n_layer c" "\<forall>blk\<in>set bs. block_ok c blk"
    by simp_all
  then show ?thesis
    using init_weights_blocks_ok [of bs c "sub gn 2" 0]
    by (simp add: m gpt_ok_def init_weights_embedding_def Embedding_init_def LayerNorm_init_def
        init_weights_linear_def Linear_init_def)
qed

lemma GPTLanguageModel_init_Inr:
  assumes "0 < n_head c" "0 \<le> dropout c" "dropout c \<le> 1"
  shows "\<exists>m. GPTLanguageModel_init c g gn = Inr m"
proof -
  from blocks_init_Inr [OF assms, of "sub g 2" 0 "n_layer c"] obtain bs
    where "blocks_init c (sub g 2) 0 (n_layer c) = Inr bs" by blast
  then show ?thesis
    by (simp add: GPTLanguageModel_init_def Let_def)
qed

lemma GPTLanguageModel_init_zero_heads:
  assumes "n_head c = 0" "0 < n_layer c"
  shows "GPTLanguageModel_init c g gn = Inl ZeroDivisionError"
proof -
  obtain n where n: "n_layer c = Suc n" using assms(2) by (cases "n_layer c") simp_all
  show ?thesis
    using assms(1) by (simp add: GPTLanguageModel_init_def Let_def n Block_init_zero_heads)
qed

lemma train_config_init:
  "\<exists>m. GPTLanguageModel_init (train_config v) g gn = Inr m \<and> gpt_ok (train_config v) m"
proof -
  obtain m where "GPTLanguageModel_init (train_config v) g gn = Inr m"
    using GPTLanguageModel_init_Inr [of "train_config v" g gn] by (auto simp: train_config_def)
  then show ?thesis
    using GPTLanguageModel_init_ok by blast
qed

subsection \<open>Claims on the forward pass\<close>

lemma tokens_ok_zeros2: "0 < vocab_size c \<or> B = 0 \<or> T = 0 \<Longrightarrow> tokens_ok c (zeros2 B T)"
  by (auto simp: tokens_ok_def zeros2_def)

lemma tokens_ok_ids_with_last:
  "0 \<le> v \<Longrightarrow> v < int (vocab_size c) \<Longrightarrow> tokens_ok c (ids_with_last B T v)"
  by (auto simp: tokens_ok_def ids_with_last_def)

text \<open>
  C1. Causality. With dropout disabled, for two batches of tokens with \<open>T \<le> block_size\<close>
  that differ only at positions after \<open>i\<close>, both forward passes succeed and their logits are
  the same at every position up to \<open>i\<close>.
\<close>

theorem causality:
  assumes "gpt_ok c m" "0 < n_head c" "n_head c \<le> n_embd c"
    and "tokens_ok c idx" "tokens_ok c idx'" "cols2 idx \<le> block_size c"
    and "same_prefix i idx idx'"
  shows "\<exists>lg lg'. forward m False nz idx None = Inr (Logits3 lg, None)
           \<and> forward m False nz idx' None = Inr (Logits3 lg', None)
           \<and> (\<forall>b t v. b < rows2 idx \<and> t \<le> i \<and> t < cols2 idx
                 \<longrightarrow> elem3 lg b t v = elem3 lg' b t v)"
proof -
  from forward_agree [OF assms, of False nz] obtain lg lg'
    where f: "\<forall>tg. forward m False nz idx tg =
              (case tg of None \<Rightarrow> Inr (Logits3 lg, None)
               | Some tg \<Rightarrow>
                   bind_err (view_BT tg (dim0 lg * dim1 lg)) (\<lambda>tg1.
                   bind_err (cross_entropy (view_BT_C lg) tg1) (\<lambda>loss.
                     Inr (Logits2 (view_BT_C lg), Some loss))))"
      and f': "forward m False nz idx' None = Inr (Logits3 lg', None)"
      and d: "dim0 lg = rows2 idx" "dim1 lg = cols2 idx"
      and a: "agree_upto i lg lg'"
    by blast
  from f have "forward m False nz idx None = Inr (Logits3 lg, None)"
    by (metis option.simps(4))
  moreover have "elem3 lg b t v = elem3 lg' b t v"
    if "b < rows2 idx" "t \<le> i" "t < cols2 idx" for b t v
    using a d that by (simp add: agree_upto_def)
  ultimately show ?thesis using f' by blast
qed

theorem causality_witness:
  "\<exists>m lg lg'. GPTLanguageModel_init (train_config 65) (\<lambda>_ _ _. 0) (\<lambda>_ _ _. 0) = Inr m
      \<and> forward m False (\<lambda>_. keep_all) (zeros2 1 8) None = Inr (Logits3 lg, None)
      \<and> forward m False (\<lambda>_. keep_all) (ids_with_last 1 8 1) None = Inr (Logits3 lg', None)
      \<and> elem3 lg 0 6 0 = elem3 lg' 0 6 0"
proof -
  obtain m where m: "GPTLanguageModel_init (train_config 65) (\<lambda>_ _ _. 0) (\<lambda>_ _ _. 0) = Inr m"
    and ok: "gpt_ok (train_config 65) m"
    using train_config_init by blast
  have t: "tokens_ok (train_config 65) (zeros2 1 8)"
    by (rule tokens_ok_zeros2) (simp add: train_config_def)
  have t': "tokens_ok (train_config 65) (ids_with_last 1 8 1)"
    by (rule tokens_ok_ids_with_last) (simp_all add: train_config_def)
  have sp: "same_prefix 6 (zeros2 1 8) (ids_with_last 1 8 1)"
    by (simp add: same_prefix_def zeros2_def ids_with_last_def)
  have "0 < n_head (train_config 65)" "n_head (train_config 65) \<le> n_embd (train_config 65)"
    "cols2 (zeros2 1 8) \<le> block_size (train_config 65)"
    by (simp_all add: train_config_def zeros2_def)
  from causality [OF ok this(1,2) t t' this(3) sp, of "\<lambda>_. keep_all"] obtain lg lg'
    where "forward m False (\<lambda>_. keep_all) (zeros2 1 8) None = Inr (Logits3 lg, None)"
      "forward m False (\<lambda>_. keep_all) (ids_with_last 1 8 1) None = Inr (Logits3 lg', None)"
      "\<forall>b t v. b < rows2 (zeros2 1 8) \<and> t \<le> 6 \<and> t < cols2 (zeros2 1 8)
                 \<longrightarrow> elem3 lg b t v = elem3 lg' b t v"
    by blast
  moreover from this(3) have "elem3 lg 0 6 0 = elem3 lg' 0 6 0"
    by (simp add: zeros2_def)
  ultimately show ?thesis using m by blast
qed

subsection \<open>The transformer block\<close>

lemma add3_same_shape:
  assumes "add3 x a = Inr x1" "dim0 a = dim0 x" "dim1 a = dim1 x" "dim2 a = dim2 x"
  shows "dim0 x1 = dim0 x \<and> dim1 x1 = dim1 x \<and> dim2 x1 = dim2 x
       \<and> (\<forall>b t e. b < dim0 x \<and> t < dim1 x \<and> e < dim2 x
             \<longrightarrow> elem3 x1 b t e = elem3 x b t e + elem3 a b t e)"
  using assms by (auto simp: add3_def bdim_def bix_def)

lemma Block_forward_steps:
  assumes "block_ok c blk" "0 < n_head c" "n_head c \<le> n_embd c"
    and "dim2 x = n_embd c" "dim1 x \<le> block_size c"
  shows "\<exists>n1 a x1 n2 f y.
           LayerNorm_forward (ln1 blk) x = Inr n1
         \<and> MultiHeadAttention_forward (sa blk) training (sa_noise nz) n1 = Inr a
         \<and> add3 x a = Inr x1
         \<and> LayerNorm_forward (ln2 blk) x1 = Inr n2
         \<and> FeedForward_forward (ffwd blk) training (ffwd_keep nz) n2 = Inr f
         \<and> add3 x1 f = Inr y
         \<and> Block_forward blk training nz x = Inr y
         \<and> dim0 y = dim0 x \<and> dim1 y = dim1 x \<and> dim2 y = dim2 x
         \<and> (\<forall>b t e. b < dim0 x \<and> t < dim1 x \<and> e < dim2 x
               \<longrightarrow> elem3 x1 b t e = elem3 x b t e + elem3 a b t e)
         \<and> (\<forall>b t e. b < dim0 x \<and> t < dim1 x \<and> e < dim2 x
               \<longrightarrow> elem3 y b t e = elem3 x1 b t e + elem3 f b t e)"
proof -
  have ok: "mha_ok c (n_head c) (n_embd c div n_head c) (sa blk)"
    "feedforward_ok (n_embd c) (ffwd blk)"
    "normalized_shape (ln1 blk) = n_embd c" "normalized_shape (ln2 blk) = n_embd c"
    using assms(1) by (simp_all add: block_ok_def)
  have hs: "0 < n_embd c div n_head c"
    using assms(2,3) by (simp add: div_greater_zero_iff)
  have r: "agree_upto 0 z z" for z by (rule agree_upto_refl)
  have "dim2 x = normalized_shape (ln1 blk)" using ok assms(4) by simp
  from LayerNorm_agree [OF r this] obtain n1
    where n1: "LayerNorm_forward (ln1 blk) x = Inr n1"
      "dim0 n1 = dim0 x" "dim1 n1 = dim1 x" "dim2 n1 = dim2 x"
    by auto
  have "dim2 n1 = n_embd c" "dim1 n1 \<le> block_size c" using n1 assms(4,5) by simp_all
  from MultiHeadAttention_agree [OF ok(1) assms(2) hs this r, of training "sa_noise nz"]
  obtain a
    where a: "MultiHeadAttention_forward (sa blk) training (sa_noise nz) n1 = Inr a"
      "dim0 a = dim0 n1" "dim1 a = dim1 n1" "dim2 a = n_embd c"
    by auto
  have da: "dim0 a = dim0 x" "dim1 a = dim1 x" "dim2 a = dim2 x" using a n1 assms(4) by simp_all
  from add3_agree [OF r r da] obtain x1
    where x1: "add3 x a = Inr x1" by auto
  note s1 = add3_same_shape [OF x1 da]
  have "dim2 x1 = normalized_shape (ln2 blk)" using ok s1 assms(4) by simp
  from LayerNorm_agree [OF r this] obtain n2
    where n2: "LayerNorm_forward (ln2 blk) x1 = Inr n2"
      "dim0 n2 = dim0 x1" "dim1 n2 = dim1 x1" "dim2 n2 = dim2 x1"
    by auto
  have "dim2 n2 = n_embd c" using n2 s1 assms(4) by simp
  from FeedForward_agree [OF ok(2) this r, of training "ffwd_keep nz"] obtain f
    where f: "FeedForward_forward (ffwd blk) training (ffwd_keep nz) n2 = Inr f"
      "dim0 f = dim0 n2" "dim1 f = dim1 n2" "dim2 f = n_embd c"
    by auto
  have df: "dim0 f = dim0 x1" "dim1 f = dim1 x1" "dim2 f = dim2 x1"
    using f n2 s1 assms(4) by simp_all
  from add3_agree [OF r r df] obtain y
    where y: "add3 x1 f = Inr y" by auto
  note s2 = add3_same_shape [OF y df]
  have bf: "Block_forward blk training nz x = Inr y"
    using n1(1) a(1) x1 n2(1) f(1) y by (simp add: Block_forward_def)
  have d: "dim0 y = dim0 x" "dim1 y = dim1 x" "dim2 y = dim2 x"
    using s1 s2 by simp_all
  have p1: "\<forall>b t e. b < dim0 x \<and> t < dim1 x \<and> e < dim2 x
               \<longrightarrow> elem3 x1 b t e = elem3 x b t e + elem3 a b t e"
    using s1 by simp
  have "\<forall>b t e. b < dim0 x1 \<and> t < dim1 x1 \<and> e < dim2 x1
               \<longrightarrow> elem3 y b t e = elem3 x1 b t e + elem3 f b t e"
    using s2 by simp
  then have p2: "\<forall>b t e. b < dim0 x \<and> t < dim1 x \<and> e < dim2 x
               \<longrightarrow> elem3 y b t e = elem3 x1 b t e + elem3 f b t e"
    using s1 by simp
  show ?thesis
    using n1(1) a(1) x1 n2(1) f(1) y bf d p1 p2 by blast
qed

text \<open>
  C4. \<^verbatim>\<open>Block.forward\<close> returns \<open>y\<close> exactly when \<open>x1 = x + MultiHeadAttention(LayerNorm1(x))\<close>
  and \<open>y = x1 + FeedForward(LayerNorm2(x1))\<close>, each normalization before its sub-layer
  and both residual additions present. On an input of shape (B,T,n_embd) with
  \<open>T \<le> block_size\<close> all these steps succeed, the result has the shape of the input, and the
  two additions are entry by entry.
\<close>

theorem Block_forward_equation:
  "(Block_forward blk training nz x = Inr y \<longleftrightarrow>
      (\<exists>n1 a x1 n2 f.
           LayerNorm_forward (ln1 blk) x = Inr n1
         \<and> MultiHeadAttention_forward (sa blk) training (sa_noise nz) n1 = Inr a
         \<and> add3 x a = Inr x1
         \<and> LayerNorm_forward (ln2 blk) x1 = Inr n2
         \<and> FeedForward_forward (ffwd blk) training (ffwd_keep nz) n2 = Inr f
         \<and> add3 x1 f = Inr y))
 \<and> (block_ok c blk \<and> 0 < n_head c \<and> n_head c \<le> n_embd c
      \<and> dim2 x = n_embd c \<and> dim1 x \<le> block_size c \<longrightarrow>
      (\<exists>n1 a x1 n2 f y'.
           LayerNorm_forward (ln1 blk) x = Inr n1
         \<and> MultiHeadAttention_forward (sa blk) training (sa_noise nz) n1 = Inr a
         \<and> add3 x a = Inr x1
         \<and> LayerNorm_forward (ln2 blk) x1 = Inr n2
         \<and> FeedForward_forward (ffwd blk) training (ffwd_keep nz) n2 = Inr f
         \<and> add3 x1 f = Inr y'
         \<and> Block_forward blk training nz x = Inr y'
         \<and> dim0 y' = dim0 x \<and> dim1 y' = dim1 x \<and> dim2 y' = dim2 x
         \<and> (\<forall>b t e. b < dim0 x \<and> t < dim1 x \<and> e < dim2 x
               \<longrightarrow> elem3 x1 b t e = elem3 x b t e + elem3 a b t e)
         \<and> (\<forall>b t e. b < dim0 x \<and> t < dim1 x \<and> e < dim2 x
               \<longrightarrow> elem3 y' b t e = elem3 x1 b t e + elem3 f b t e)))"
proof (intro conjI impI)
  show "Block_forward blk training nz x = Inr y \<longleftrightarrow>
      (\<exists>n1 a x1 n2 f.
           LayerNorm_forward (ln1 blk) x = Inr n1
         \<and> MultiHeadAttention_forward (sa blk) training (sa_noise nz) n1 = Inr a
         \<and> add3 x a = Inr x1
         \<and> LayerNorm_forward (ln2 blk) x1 = Inr n2
         \<and> FeedForward_forward (ffwd blk) training (ffwd_keep nz) n2 = Inr f
         \<and> add3 x1 f = Inr y)"
    by (simp add: Block_forward_def bind_err_eq_Inr)
next
  assume "block_ok c blk \<and> 0 < n_head c \<and> n_head c \<le> n_embd c
      \<and> dim2 x = n_embd c \<and> dim1 x \<le> block_size c"
  then have h: "block_ok c blk" "0 < n_head c" "n_head c \<le> n_embd c"
    "dim2 x = n_embd c" "dim1 x \<le> block_size c"
    by simp_all
  show "\<exists>n1 a x1 n2 f y'.
           LayerNorm_forward (ln1 blk) x = Inr n1
         \<and> MultiHeadAttention_forward (sa blk) training (sa_noise nz) n1 = Inr a
         \<and> add3 x a = Inr x1
         \<and> LayerNorm_forward (ln2 blk) x1 = Inr n2
         \<and> FeedForward_forward (ffwd blk) training (ffwd_keep nz) n2 = Inr f
         \<and> add3 x1 f = Inr y'
         \<and> Block_forward blk training nz x = Inr y'
         \<and> dim0 y' = dim0 x \<and> dim1 y' = dim1 x \<and> dim2 y' = dim2 x
         \<and> (\<forall>b t e. b < dim0 x \<and> t < dim1 x \<and> e < dim2 x
               \<longrightarrow> elem3 x1 b t e = elem3 x b t e + elem3 a b t e)
         \<and> (\<forall>b t e. b < dim0 x \<and> t < dim1 x \<and> e < dim2 x
               \<longrightarrow> elem3 y' b t e = elem3 x1 b t e + elem3 f b t e)"
    by (rule Block_forward_steps [OF h])
qed

theorem Block_forward_equation_witness:
  "\<exists>blk y. Block_init (train_config 65) 384 6 (\<lambda>_ _ _. 0) = Inr blk
      \<and> Block_forward blk True keep_all (zeros3 64 256 384) = Inr y
      \<and> dim0 y = 64 \<and> dim1 y = 256 \<and> dim2 y = 384"
proof -
  obtain blk where b: "Block_init (train_config 65) 384 6 (\<lambda>_ _ _. 0) = Inr blk"
    using Block_init_Inr [of 6 "train_config 65" 384] by (auto simp: train_config_def)
  have "Block_init (train_config 65) (n_embd (train_config 65)) (n_head (train_config 65))
          (\<lambda>_ _ _. 0) = Inr blk"
    using b by (simp add: train_config_def)
  then have ok: "block_ok (train_config 65) blk" by (rule Block_init_ok)
  have h: "block_ok (train_config 65) blk \<and> 0 < n_head (train_config 65)
      \<and> n_head (train_config 65) \<le> n_embd (train_config 65)
      \<and> dim2 (zeros3 64 256 384) = n_embd (train_config 65)
      \<and> dim1 (zeros3 64 256 384) \<le> block_size (train_config 65)"
    using ok by (simp add: train_config_def zeros3_def)
  note e = Block_forward_equation [of blk True keep_all "zeros3 64 256 384" "zeros3 0 0 0"
      "train_config 65", THEN conjunct2, THEN mp, OF h]
  from e obtain y where "Block_forward blk True keep_all (zeros3 64 256 384) = Inr y"
    "dim0 y = dim0 (zeros3 64 256 384)" "dim1 y = dim1 (zeros3 64 256 384)"
    "dim2 y = dim2 (zeros3 64 256 384)"
    by blast
  then show ?thesis
    using b by (auto simp: zeros3_def)
qed

subsection \<open>Construction and the number of heads\<close>

lemma blocks_head_sizes:
  assumes "gpt_ok c m" "blk \<in> set (blocks m)"
  shows "length (heads (sa blk)) = n_head c
       \<and> (\<forall>h\<in>set (heads (sa blk)). out_features (key h) = n_embd c div n_head c
             \<and> out_features (query h) = n_embd c div n_head c
             \<and> out_features (val h) = n_embd c div n_head c)
       \<and> in_features (proj (sa blk)) = (n_embd c div n_head c) * n_head c
       \<and> out_features (proj (sa blk)) = n_embd c"
  using assms by (auto simp: gpt_ok_def block_ok_def mha_ok_def head_ok_def)

text \<open>
  C6, as the code has it. The constructors make no divisibility check. For every
  configuration with \<open>n_head \<ge> 1\<close> and a dropout probability in \<open>[0, 1]\<close>, whether
  or not \<open>n_head\<close> divides \<open>n_embd\<close>, the construction of the model succeeds: every head has
  width \<open>n_embd div n_head\<close> (the floor), the output projection of every block maps
  \<open>(n_embd div n_head) * n_head\<close> channels to \<open>n_embd\<close>, and with \<open>n_head \<le> n_embd\<close> the
  forward pass on tokens with \<open>T \<le> block_size\<close> succeeds. The one failure of the division
  is \<open>n_head = 0\<close> (with a block to build): \<^verbatim>\<open>ZeroDivisionError\<close> in the constructor, before
  any forward computation.
\<close>

theorem construction_without_divisibility_check:
  "(0 < n_head c \<and> 0 \<le> dropout c \<and> dropout c \<le> 1 \<longrightarrow>
      (\<exists>m. GPTLanguageModel_init c g gn = Inr m
         \<and> length (blocks m) = n_layer c
         \<and> (\<forall>blk\<in>set (blocks m).
               length (heads (sa blk)) = n_head c
             \<and> (\<forall>h\<in>set (heads (sa blk)). out_features (key h) = n_embd c div n_head c
                   \<and> out_features (query h) = n_embd c div n_head c
                   \<and> out_features (val h) = n_embd c div n_head c)
             \<and> in_features (proj (sa blk)) = (n_embd c div n_head c) * n_head c
             \<and> out_features (proj (sa blk)) = n_embd c)
         \<and> (n_head c \<le> n_embd c \<and> tokens_ok c idx \<and> cols2 idx \<le> block_size c \<longrightarrow>
               (\<exists>lg. forward m training nz idx None = Inr (Logits3 lg, None)
                  \<and> dim0 lg = rows2 idx \<and> dim1 lg = cols2 idx \<and> dim2 lg = vocab_size c))))
 \<and> (n_head c = 0 \<and> 0 < n_layer c \<longrightarrow> GPTLanguageModel_init c g gn = Inl ZeroDivisionError)"
proof (intro conjI impI)
  assume h: "0 < n_head c \<and> 0 \<le> dropout c \<and> dropout c \<le> 1"
  then obtain m where m: "GPTLanguageModel_init c g gn = Inr m"
    using GPTLanguageModel_init_Inr [of c g gn] by blast
  then have ok: "gpt_ok c m" by (rule GPTLanguageModel_init_ok)
  have len: "length (blocks m) = n_layer c" using ok by (simp add: gpt_ok_def)
  have fw: "\<exists>lg. forward m training nz idx None = Inr (Logits3 lg, None)
                  \<and> dim0 lg = rows2 idx \<and> dim1 lg = cols2 idx \<and> dim2 lg = vocab_size c"
    if t: "n_head c \<le> n_embd c \<and> tokens_ok c idx \<and> cols2 idx \<le> block_size c"
  proof -
    have sp: "same_prefix 0 idx idx" by (simp add: same_prefix_def)
    from forward_agree [OF ok _ _ _ _ _ sp, of training nz] h t obtain lg
      where "forward m training nz idx None = Inr (Logits3 lg, None)"
        "dim0 lg = rows2 idx" "dim1 lg = cols2 idx" "dim2 lg = vocab_size c"
      by auto
    then show ?thesis by blast
  qed
  show "\<exists>m. GPTLanguageModel_init c g gn = Inr m
         \<and> length (blocks m) = n_layer c
         \<and> (\<forall>blk\<in>set (blocks m).
               length (heads (sa blk)) = n_head c
             \<and> (\<forall>h\<in>set (heads (sa blk)). out_features (key h) = n_embd c div n_head c
                   \<and> out_features (query h) = n_embd c div n_head c
                   \<and> out_features (val h) = n_embd c div n_head c)
             \<and> in_features (proj (sa blk)) = (n_embd c div n_head c) * n_head c
             \<and> out_features (proj (sa blk)) = n_embd c)
         \<and> (n_head c \<le> n_embd c \<and> tokens_ok c idx \<and> cols2 idx \<le> block_size c \<longrightarrow>
               (\<exists>lg. forward m training nz idx None = Inr (Logits3 lg, None)
                  \<and> dim0 lg = rows2 idx \<and> dim1 lg = cols2 idx \<and> dim2 lg = vocab_size c))"
    using m len blocks_head_sizes [OF ok] fw by (intro exI [of _ m]) blast
next
  assume "n_head c = 0 \<and> 0 < n_layer c"
  then show "GPTLanguageModel_init c g gn = Inl ZeroDivisionError"
    using GPTLanguageModel_init_zero_heads by blast
qed

theorem construction_without_divisibility_check_witness:
  "\<exists>m. GPTLanguageModel_init uneven_config (\<lambda>_ _ _. 0) (\<lambda>_ _ _. 0) = Inr m
      \<and> length (blocks m) = 6
      \<and> (\<forall>blk\<in>set (blocks m). length (heads (sa blk)) = 6
            \<and> (\<forall>h\<in>set (heads (sa blk)). out_features (key h) = 16)
            \<and> in_features (proj (sa blk)) = 96 \<and> out_features (proj (sa blk)) = 100)"
proof -
  have h: "0 < n_head uneven_config \<and> 0 \<le> dropout uneven_config \<and> dropout uneven_config \<le> 1"
    by (simp add: uneven_config_def train_config_def)
  note e = construction_without_divisibility_check [of uneven_config "\<lambda>_ _ _. 0" "\<lambda>_ _ _. 0"
      "zeros2 1 1" False "\<lambda>_. keep_all", THEN conjunct1, THEN mp, OF h]
  then obtain m where m: "GPTLanguageModel_init uneven_config (\<lambda>_ _ _. 0) (\<lambda>_ _ _. 0) = Inr m"
    "length (blocks m) = n_layer uneven_config"
    "\<forall>blk\<in>set (blocks m).
       length (heads (sa blk)) = n_head uneven_config
     \<and> (\<forall>h\<in>set (heads (sa blk)).
           out_features (key h) = n_embd uneven_config div n_head uneven_config
         \<and> out_features (query h) = n_embd uneven_config div n_head uneven_config
         \<and> out_features (val h) = n_embd uneven_config div n_head uneven_config)
     \<and> in_features (proj (sa blk)) = (n_embd uneven_config div n_head uneven_config) * n_head uneven_config
     \<and> out_features (proj (sa blk)) = n_embd uneven_config"
    by blast
  have v: "n_layer uneven_config = 6" "n_head uneven_config = 6" "n_embd uneven_config = 100"
    by (simp_all add: uneven_config_def train_config_def)
  have "\<forall>blk\<in>set (blocks m). length (heads (sa blk)) = 6
            \<and> (\<forall>h\<in>set (heads (sa blk)). out_features (key h) = 16)
            \<and> in_features (proj (sa blk)) = 96 \<and> out_features (proj (sa blk)) = 100"
    using m(3) unfolding v by simp
  then show ?thesis using m(1,2) v by (intro exI [of _ m]) simp
qed

text \<open>The claim as stated fails: 6 does not divide 100, and the model is built and runs.\<close>

theorem config_validation_counterexample:
  "\<not> n_head uneven_config dvd n_embd uneven_config
   \<and> (\<exists>m. GPTLanguageModel_init uneven_config (\<lambda>_ _ _. 0) (\<lambda>_ _ _. 0) = Inr m
          \<and> (\<exists>lg. forward m False (\<lambda>_. keep_all) (zeros2 1 1) None = Inr (Logits3 lg, None)))"
proof -
  have nd: "\<not> n_head uneven_config dvd n_embd uneven_config"
    by (simp add: uneven_config_def train_config_def)
  obtain m where m: "GPTLanguageModel_init uneven_config (\<lambda>_ _ _. 0) (\<lambda>_ _ _. 0) = Inr m"
    using GPTLanguageModel_init_Inr [of uneven_config]
    by (auto simp: uneven_config_def train_config_def)
  then have ok: "gpt_ok uneven_config m" by (rule GPTLanguageModel_init_ok)
  have sp: "same_prefix 0 (zeros2 1 1) (zeros2 1 1)" by (simp add: same_prefix_def)
  have t: "tokens_ok uneven_config (zeros2 1 1)"
    by (rule tokens_ok_zeros2) (simp add: uneven_config_def train_config_def)
  have c: "0 < n_head uneven_config" "n_head uneven_config \<le> n_embd uneven_config"
    "cols2 (zeros2 1 1) \<le> block_size uneven_config"
    by (simp_all add: uneven_config_def train_config_def zeros2_def)
  from forward_agree [OF ok c(1,2) t t c(3) sp, of False "\<lambda>_. keep_all"] obtain lg
    where "forward m False (\<lambda>_. keep_all) (zeros2 1 1) None = Inr (Logits3 lg, None)"
    by auto
  with nd m show ?thesis by blast
qed

subsection \<open>The values that the forward pass returns\<close>

lemma softmax_row_bounds:
  assumes "j < n"
  shows "0 < softmax_row f n j \<and> softmax_row f n j \<le> 1"
proof -
  have pos: "0 < (\<Sum>k<n. exp (f k))"
    by (rule sum_pos2 [where i = j]) (use assms in \<open>auto simp: less_imp_le\<close>)
  have "exp (f j) \<le> (\<Sum>k<n. exp (f k))"
    by (rule member_le_sum) (use assms in \<open>auto simp: less_imp_le\<close>)
  then show ?thesis
    using pos by (simp add: softmax_row_def)
qed

lemma nll_nonneg: "j < n \<Longrightarrow> 0 \<le> - ln (softmax_row f n j)"
  using softmax_row_bounds [of j n f] by simp

lemma cross_entropy_valid:
  assumes "len1 tg = rows2 l"
    and "\<And>n. n < rows2 l \<Longrightarrow> 0 \<le> elem1 tg n \<and> elem1 tg n < int (cols2 l)"
  shows "cross_entropy l tg =
     (if rows2 l = 0 then Inr LossNaN
      else Inr (Loss ((\<Sum>n<rows2 l. - ln (softmax_row (elem2 l n) (cols2 l) (nat (elem1 tg n))))
                        / real (rows2 l))))"
proof -
  have k: "elem1 tg n \<noteq> - 100" if "n < rows2 l" for n
    using assms(2) [OF that] by simp
  have f: "filter (\<lambda>n. elem1 tg n \<noteq> - 100) [0..<rows2 l] = [0..<rows2 l]"
    using k by (simp add: filter_id_conv)
  have "\<not> (elem1 tg n < 0 \<or> int (cols2 l) \<le> elem1 tg n)" if "n < rows2 l" for n
    using assms(2) [OF that] by simp
  then have e: "\<not> (\<exists>n\<in>{0..<rows2 l}. elem1 tg n \<noteq> - 100 \<and>
                (elem1 tg n < 0 \<or> int (cols2 l) \<le> elem1 tg n))"
    by auto
  have s: "(\<Sum>n\<leftarrow>[0..<rows2 l]. g n) = (\<Sum>n<rows2 l. g n)" for g :: "nat \<Rightarrow> real"
    by (simp add: interv_sum_list_conv_sum_set_nat atLeast0LessThan)
  have "cross_entropy l tg =
     (if [0..<rows2 l] = [] then Inr LossNaN
      else Inr (Loss ((\<Sum>n\<leftarrow>[0..<rows2 l].
                          - ln (softmax_row (elem2 l n) (cols2 l) (nat (elem1 tg n))))
                        / real (length [0..<rows2 l]))))"
    unfolding cross_entropy_def Let_def f using assms(1) e
    by (simp only: simp_thms if_False)
  then show ?thesis
    by (simp add: s)
qed

lemma view_BT_valid:
  assumes "tokens_ok c tg"
  shows "\<exists>t1. view_BT tg (rows2 tg * cols2 tg) = Inr t1 \<and> len1 t1 = rows2 tg * cols2 tg
           \<and> (\<forall>n. n < rows2 tg * cols2 tg \<longrightarrow>
                 elem1 t1 n = elem2 tg (n div cols2 tg) (n mod cols2 tg)
               \<and> 0 \<le> elem1 t1 n \<and> elem1 t1 n < int (vocab_size c))"
proof -
  have "0 \<le> elem2 tg (n div cols2 tg) (n mod cols2 tg)
      \<and> elem2 tg (n div cols2 tg) (n mod cols2 tg) < int (vocab_size c)"
    if "n < rows2 tg * cols2 tg" for n
  proof -
    have c0: "0 < cols2 tg" using that by (cases "cols2 tg") simp_all
    have "n div cols2 tg < rows2 tg"
      using that c0 by (simp add: less_mult_imp_div_less)
    moreover have "n mod cols2 tg < cols2 tg" using c0 by simp
    ultimately show ?thesis by (rule tokens_ok_entry [OF assms])
  qed
  then show ?thesis by (simp add: view_BT_def)
qed

lemma forward_returns:
  assumes "gpt_ok c m" "0 < n_head c" "n_head c \<le> n_embd c"
    and "tokens_ok c idx" "cols2 idx \<le> block_size c"
  shows "\<exists>lg. forward m training nz idx None = Inr (Logits3 lg, None)
           \<and> dim0 lg = rows2 idx \<and> dim1 lg = cols2 idx \<and> dim2 lg = vocab_size c
           \<and> (\<forall>tg. tokens_ok c tg \<and> rows2 tg = rows2 idx \<and> cols2 tg = cols2 idx \<longrightarrow>
                forward m training nz idx (Some tg) =
                  Inr (Logits2 (view_BT_C lg),
                       Some (if rows2 idx * cols2 idx = 0 then LossNaN
                             else Loss ((\<Sum>n<rows2 idx * cols2 idx.
                                    - ln (softmax_row (elem2 (view_BT_C lg) n) (vocab_size c)
                                           (nat (elem2 tg (n div cols2 idx) (n mod cols2 idx)))))
                                  / real (rows2 idx * cols2 idx)))))"
proof -
  have sp: "same_prefix 0 idx idx" by (simp add: same_prefix_def)
  from forward_agree [OF assms(1,2,3,4,4,5) sp, of training nz] obtain lg
    where f: "\<And>tg. forward m training nz idx tg =
              (case tg of None \<Rightarrow> Inr (Logits3 lg, None)
               | Some tg \<Rightarrow>
                   bind_err (view_BT tg (dim0 lg * dim1 lg)) (\<lambda>tg1.
                   bind_err (cross_entropy (view_BT_C lg) tg1) (\<lambda>loss.
                     Inr (Logits2 (view_BT_C lg), Some loss))))"
      and d: "dim0 lg = rows2 idx" "dim1 lg = cols2 idx" "dim2 lg = vocab_size c"
    by blast
  have n: "forward m training nz idx None = Inr (Logits3 lg, None)"
    using f [of None] by simp
  have s: "forward m training nz idx (Some tg) =
                  Inr (Logits2 (view_BT_C lg),
                       Some (if rows2 idx * cols2 idx = 0 then LossNaN
                             else Loss ((\<Sum>n<rows2 idx * cols2 idx.
                                    - ln (softmax_row (elem2 (view_BT_C lg) n) (vocab_size c)
                                           (nat (elem2 tg (n div cols2 idx) (n mod cols2 idx)))))
                                  / real (rows2 idx * cols2 idx))))"
    if t: "tokens_ok c tg" "rows2 tg = rows2 idx" "cols2 tg = cols2 idx" for tg
  proof -
    from view_BT_valid [OF t(1)] t(2,3) obtain t1
      where t1: "view_BT tg (rows2 idx * cols2 idx) = Inr t1" "len1 t1 = rows2 idx * cols2 idx"
        "\<And>n. n < rows2 idx * cols2 idx \<Longrightarrow>
                 elem1 t1 n = elem2 tg (n div cols2 idx) (n mod cols2 idx)
               \<and> 0 \<le> elem1 t1 n \<and> elem1 t1 n < int (vocab_size c)"
      by auto
    have r: "rows2 (view_BT_C lg) = rows2 idx * cols2 idx" "cols2 (view_BT_C lg) = vocab_size c"
      using d by (simp_all add: view_BT_C_def)
    have ce: "cross_entropy (view_BT_C lg) t1 =
     (if rows2 idx * cols2 idx = 0 then Inr LossNaN
      else Inr (Loss ((\<Sum>n<rows2 idx * cols2 idx.
               - ln (softmax_row (elem2 (view_BT_C lg) n) (vocab_size c) (nat (elem1 t1 n))))
                        / real (rows2 idx * cols2 idx))))"
    proof -
      have l: "len1 t1 = rows2 (view_BT_C lg)" using t1(2) r by simp
      have v: "0 \<le> elem1 t1 n \<and> elem1 t1 n < int (cols2 (view_BT_C lg))"
        if "n < rows2 (view_BT_C lg)" for n
        using t1(3) [of n] that r by simp
      from cross_entropy_valid [OF l v] show ?thesis by (simp only: r)
    qed
    have "(\<Sum>n<rows2 idx * cols2 idx.
               - ln (softmax_row (elem2 (view_BT_C lg) n) (vocab_size c) (nat (elem1 t1 n))))
        = (\<Sum>n<rows2 idx * cols2 idx.
               - ln (softmax_row (elem2 (view_BT_C lg) n) (vocab_size c)
                       (nat (elem2 tg (n div cols2 idx) (n mod cols2 idx)))))"
      by (rule sum.cong) (simp_all add: t1(3))
    then show ?thesis
      using f [of "Some tg"] t1(1) ce d by simp
  qed
  show ?thesis
    using n d s by blast
qed

lemma cross_entropy_mean_nonneg:
  assumes "\<And>n. n < N \<Longrightarrow> t n < V"
  shows "0 \<le> (\<Sum>n<N. - ln (softmax_row (g n) V (t n))) / real N"
proof -
  have "0 \<le> (\<Sum>n<N. - ln (softmax_row (g n) V (t n)))"
  proof (rule sum_nonneg)
    fix n assume "n \<in> {..<N}"
    then have "t n < V" using assms by simp
    then show "0 \<le> - ln (softmax_row (g n) V (t n))" by (rule nll_nonneg)
  qed
  then show ?thesis by simp
qed

lemma loss_is_None_iff:
  "forward m training nz idx tgo = Inr (lgs, lo) \<Longrightarrow> (lo = None) = (tgo = None)"
  by (auto simp: forward_def Let_def bind_err_eq_Inr split: option.splits)


lemma flat_index: "n < B * T \<Longrightarrow> n div T < B \<and> n mod T < (T::nat)"
proof -
  assume a: "n < B * T"
  then have "0 < T" by (cases T) simp_all
  then show ?thesis using a by (simp add: less_mult_imp_div_less)
qed

text \<open>
  C8, as the code has it. For a batch of tokens of shape (B,T) with \<open>T \<le> block_size\<close>,
  \<^verbatim>\<open>forward\<close> without targets returns logits of shape (B,T,vocab_size) and \<^verbatim>\<open>None\<close>; with
  targets of shape (B,T) it returns the same logits viewed as (B*T, vocab_size), since
  line 167 rebinds \<^verbatim>\<open>logits\<close>, and the mean over the \<open>B*T\<close> rows of the cross-entropy of a
  row against its target, which is a number not below 0 when \<open>B*T \<ge> 1\<close> and NaN when
  \<open>B*T = 0\<close>. Whenever \<^verbatim>\<open>forward\<close> returns, its second value is \<^verbatim>\<open>None\<close> exactly when the
  targets are \<^verbatim>\<open>None\<close>.
\<close>

theorem forward_return_contract:
  assumes "gpt_ok c m" "0 < n_head c" "n_head c \<le> n_embd c"
    and "tokens_ok c idx" "cols2 idx \<le> block_size c"
  shows "\<exists>lg. forward m training nz idx None = Inr (Logits3 lg, None)
       \<and> dim0 lg = rows2 idx \<and> dim1 lg = cols2 idx \<and> dim2 lg = vocab_size c
       \<and> (\<forall>tg. tokens_ok c tg \<and> rows2 tg = rows2 idx \<and> cols2 tg = cols2 idx \<longrightarrow>
            (\<exists>loss. forward m training nz idx (Some tg) = Inr (Logits2 (view_BT_C lg), Some loss)
               \<and> rows2 (view_BT_C lg) = rows2 idx * cols2 idx
               \<and> cols2 (view_BT_C lg) = vocab_size c
               \<and> (rows2 idx * cols2 idx = 0 \<longrightarrow> loss = LossNaN)
               \<and> (0 < rows2 idx * cols2 idx \<longrightarrow>
                    (\<exists>r. loss = Loss r \<and> 0 \<le> r
                       \<and> r = (\<Sum>n<rows2 idx * cols2 idx.
                                 - ln (softmax_row (elem2 (view_BT_C lg) n) (vocab_size c)
                                        (nat (elem2 tg (n div cols2 idx) (n mod cols2 idx)))))
                               / real (rows2 idx * cols2 idx)))))
       \<and> (\<forall>tgo lgs lo. forward m training nz idx tgo = Inr (lgs, lo)
             \<longrightarrow> (lo = None) = (tgo = None))"
proof -
  from forward_returns [OF assms, of training nz] obtain lg
    where n: "forward m training nz idx None = Inr (Logits3 lg, None)"
      and d: "dim0 lg = rows2 idx" "dim1 lg = cols2 idx" "dim2 lg = vocab_size c"
      and s: "\<And>tg. tokens_ok c tg \<and> rows2 tg = rows2 idx \<and> cols2 tg = cols2 idx \<Longrightarrow>
                forward m training nz idx (Some tg) =
                  Inr (Logits2 (view_BT_C lg),
                       Some (if rows2 idx * cols2 idx = 0 then LossNaN
                             else Loss ((\<Sum>n<rows2 idx * cols2 idx.
                                    - ln (softmax_row (elem2 (view_BT_C lg) n) (vocab_size c)
                                           (nat (elem2 tg (n div cols2 idx) (n mod cols2 idx)))))
                                  / real (rows2 idx * cols2 idx))))"
    by blast
  have r: "rows2 (view_BT_C lg) = rows2 idx * cols2 idx" "cols2 (view_BT_C lg) = vocab_size c"
    using d by (simp_all add: view_BT_C_def)
  have nn: "0 \<le> (\<Sum>n<rows2 idx * cols2 idx.
                 - ln (softmax_row (elem2 (view_BT_C lg) n) (vocab_size c)
                        (nat (elem2 tg (n div cols2 idx) (n mod cols2 idx)))))
               / real (rows2 idx * cols2 idx)"
    if t: "tokens_ok c tg \<and> rows2 tg = rows2 idx \<and> cols2 tg = cols2 idx" for tg
  proof (rule cross_entropy_mean_nonneg)
    fix n assume "n < rows2 idx * cols2 idx"
    then have "n div cols2 idx < rows2 tg" "n mod cols2 idx < cols2 tg"
      using flat_index [of n "rows2 idx" "cols2 idx"] t by simp_all
    with t have "0 \<le> elem2 tg (n div cols2 idx) (n mod cols2 idx)
        \<and> elem2 tg (n div cols2 idx) (n mod cols2 idx) < int (vocab_size c)"
      using tokens_ok_entry by blast
    then show "nat (elem2 tg (n div cols2 idx) (n mod cols2 idx)) < vocab_size c"
      by (simp add: nat_less_iff)
  qed
  have tgt: "\<exists>loss. forward m training nz idx (Some tg) = Inr (Logits2 (view_BT_C lg), Some loss)
               \<and> rows2 (view_BT_C lg) = rows2 idx * cols2 idx
               \<and> cols2 (view_BT_C lg) = vocab_size c
               \<and> (rows2 idx * cols2 idx = 0 \<longrightarrow> loss = LossNaN)
               \<and> (0 < rows2 idx * cols2 idx \<longrightarrow>
                    (\<exists>r. loss = Loss r \<and> 0 \<le> r
                       \<and> r = (\<Sum>n<rows2 idx * cols2 idx.
                                 - ln (softmax_row (elem2 (view_BT_C lg) n) (vocab_size c)
                                        (nat (elem2 tg (n div cols2 idx) (n mod cols2 idx)))))
                               / real (rows2 idx * cols2 idx)))"
    if t: "tokens_ok c tg \<and> rows2 tg = rows2 idx \<and> cols2 tg = cols2 idx" for tg
  proof (cases "rows2 idx * cols2 idx = 0")
    case True
    then show ?thesis using s [OF t] r by simp
  next
    case False
    then show ?thesis using s [OF t] r nn [OF t] by simp
  qed
  have iff: "(lo = None) = (tgo = None)"
    if "forward m training nz idx tgo = Inr (lgs, lo)" for tgo lgs lo
    using that by (rule loss_is_None_iff)
  show ?thesis
    using n d tgt iff by blast
qed


theorem forward_return_contract_witness:
  "\<exists>m lg. GPTLanguageModel_init (train_config 10) (\<lambda>_ _ _. 0) (\<lambda>_ _ _. 0) = Inr m
      \<and> forward m True (\<lambda>_. keep_all) (zeros2 2 8) None = Inr (Logits3 lg, None)
      \<and> dim0 lg = 2 \<and> dim1 lg = 8 \<and> dim2 lg = 10
      \<and> (\<exists>r. forward m True (\<lambda>_. keep_all) (zeros2 2 8) (Some (zeros2 2 8))
                 = Inr (Logits2 (view_BT_C lg), Some (Loss r)) \<and> 0 \<le> r)"
proof -
  obtain m where m: "GPTLanguageModel_init (train_config 10) (\<lambda>_ _ _. 0) (\<lambda>_ _ _. 0) = Inr m"
    and ok: "gpt_ok (train_config 10) m"
    using train_config_init by blast
  have t: "tokens_ok (train_config 10) (zeros2 2 8)"
    by (rule tokens_ok_zeros2) (simp add: train_config_def)
  have c: "0 < n_head (train_config 10)" "n_head (train_config 10) \<le> n_embd (train_config 10)"
    "cols2 (zeros2 2 8) \<le> block_size (train_config 10)"
    by (simp_all add: train_config_def zeros2_def)
  from forward_return_contract [OF ok c(1,2) t c(3), of True "\<lambda>_. keep_all"] obtain lg
    where n: "forward m True (\<lambda>_. keep_all) (zeros2 2 8) None = Inr (Logits3 lg, None)"
      and d: "dim0 lg = rows2 (zeros2 2 8)" "dim1 lg = cols2 (zeros2 2 8)"
        "dim2 lg = vocab_size (train_config 10)"
      and s: "\<forall>tg. tokens_ok (train_config 10) tg \<and> rows2 tg = rows2 (zeros2 2 8)
                 \<and> cols2 tg = cols2 (zeros2 2 8) \<longrightarrow>
            (\<exists>loss. forward m True (\<lambda>_. keep_all) (zeros2 2 8) (Some tg)
                       = Inr (Logits2 (view_BT_C lg), Some loss)
               \<and> rows2 (view_BT_C lg) = rows2 (zeros2 2 8) * cols2 (zeros2 2 8)
               \<and> cols2 (view_BT_C lg) = vocab_size (train_config 10)
               \<and> (rows2 (zeros2 2 8) * cols2 (zeros2 2 8) = 0 \<longrightarrow> loss = LossNaN)
               \<and> (0 < rows2 (zeros2 2 8) * cols2 (zeros2 2 8) \<longrightarrow>
                    (\<exists>r. loss = Loss r \<and> 0 \<le> r
                       \<and> r = (\<Sum>n<rows2 (zeros2 2 8) * cols2 (zeros2 2 8).
                                 - ln (softmax_row (elem2 (view_BT_C lg) n)
                                        (vocab_size (train_config 10))
                                        (nat (elem2 tg (n div cols2 (zeros2 2 8))
                                                       (n mod cols2 (zeros2 2 8))))))
                               / real (rows2 (zeros2 2 8) * cols2 (zeros2 2 8)))))"
    by blast
  have p: "0 < rows2 (zeros2 2 8) * cols2 (zeros2 2 8)" by (simp add: zeros2_def)
  from s t p obtain r
    where "forward m True (\<lambda>_. keep_all) (zeros2 2 8) (Some (zeros2 2 8))
             = Inr (Logits2 (view_BT_C lg), Some (Loss r))" "0 \<le> r"
    by blast
  moreover have "dim0 lg = 2" "dim1 lg = 8" "dim2 lg = 10"
    using d by (simp_all add: zeros2_def train_config_def)
  ultimately show ?thesis using m n by blast
qed

text \<open>The claim as stated fails on the example of the specification: on a batch of shape
  (2,8) with 10 classes and with targets, the logits that come back have shape (16,10) and
  not (2,8,10).\<close>

theorem forward_return_contract_counterexample:
  "\<exists>m. GPTLanguageModel_init (train_config 10) (\<lambda>_ _ _. 0) (\<lambda>_ _ _. 0) = Inr m
      \<and> (\<exists>l2 lo. forward m True (\<lambda>_. keep_all) (zeros2 2 8) (Some (zeros2 2 8))
                    = Inr (Logits2 l2, lo) \<and> rows2 l2 = 16 \<and> cols2 l2 = 10)
      \<and> \<not> (\<exists>lg lo. forward m True (\<lambda>_. keep_all) (zeros2 2 8) (Some (zeros2 2 8))
                    = Inr (Logits3 lg, lo))"
proof -
  obtain m where m: "GPTLanguageModel_init (train_config 10) (\<lambda>_ _ _. 0) (\<lambda>_ _ _. 0) = Inr m"
    and ok: "gpt_ok (train_config 10) m"
    using train_config_init by blast
  have t: "tokens_ok (train_config 10) (zeros2 2 8)"
    by (rule tokens_ok_zeros2) (simp add: train_config_def)
  have c: "0 < n_head (train_config 10)" "n_head (train_config 10) \<le> n_embd (train_config 10)"
    "cols2 (zeros2 2 8) \<le> block_size (train_config 10)"
    by (simp_all add: train_config_def zeros2_def)
  from forward_returns [OF ok c(1,2) t c(3), of True "\<lambda>_. keep_all"] t obtain lg lo
    where d: "dim0 lg = rows2 (zeros2 2 8)" "dim1 lg = cols2 (zeros2 2 8)"
        "dim2 lg = vocab_size (train_config 10)"
      and s: "forward m True (\<lambda>_. keep_all) (zeros2 2 8) (Some (zeros2 2 8))
                = Inr (Logits2 (view_BT_C lg), lo)"
    by blast
  have "rows2 (view_BT_C lg) = 16" "cols2 (view_BT_C lg) = 10"
    using d by (simp_all add: view_BT_C_def zeros2_def train_config_def)
  with s have "\<exists>l2 lo. forward m True (\<lambda>_. keep_all) (zeros2 2 8) (Some (zeros2 2 8))
                    = Inr (Logits2 l2, lo) \<and> rows2 l2 = 16 \<and> cols2 l2 = 10"
    by blast
  moreover have "\<not> (\<exists>lg lo. forward m True (\<lambda>_. keep_all) (zeros2 2 8) (Some (zeros2 2 8))
                    = Inr (Logits3 lg, lo))"
    using s by simp
  ultimately show ?thesis using m by blast
qed

subsection \<open>The boundary of the context window\<close>

text \<open>
  C5, as the code has it. A forward pass on a batch of tokens with \<open>T = block_size\<close>
  succeeds: without targets it returns logits of shape (B, block_size, vocab_size), and with
  targets of shape (B, block_size) the same logits viewed as
  (B * block_size, vocab_size), since line 167 rebinds \<^verbatim>\<open>logits\<close>. On every batch with
  \<open>T = block_size + 1\<close>, with or without targets, it raises before any logits exist: an
  embedding lookup fails, with \<^verbatim>\<open>IndexError\<close> when neither table is empty.
\<close>

theorem context_overflow_boundary:
  assumes "gpt_ok c m"
  shows "(0 < n_head c \<and> n_head c \<le> n_embd c \<and> tokens_ok c idx \<and> cols2 idx = block_size c \<longrightarrow>
           (\<exists>lg. forward m training nz idx None = Inr (Logits3 lg, None)
              \<and> dim0 lg = rows2 idx \<and> dim1 lg = block_size c \<and> dim2 lg = vocab_size c
              \<and> (\<forall>tg. tokens_ok c tg \<and> rows2 tg = rows2 idx \<and> cols2 tg = block_size c \<longrightarrow>
                   (\<exists>loss. forward m training nz idx (Some tg)
                              = Inr (Logits2 (view_BT_C lg), Some loss)
                      \<and> rows2 (view_BT_C lg) = rows2 idx * block_size c
                      \<and> cols2 (view_BT_C lg) = vocab_size c))))
       \<and> (cols2 idx = block_size c + 1 \<longrightarrow>
           (\<forall>tg. \<exists>err. forward m training nz idx tg = Inl err
               \<and> (err = IndexError \<or> err = RuntimeError)
               \<and> (0 < block_size c \<and> 0 < vocab_size c \<longrightarrow> err = IndexError)))"
proof (intro conjI impI)
  assume h: "0 < n_head c \<and> n_head c \<le> n_embd c \<and> tokens_ok c idx \<and> cols2 idx = block_size c"
  then have a: "0 < n_head c" "n_head c \<le> n_embd c" "tokens_ok c idx"
    "cols2 idx \<le> block_size c" and e: "cols2 idx = block_size c"
    by simp_all
  from forward_returns [OF assms a, of training nz] obtain lg
    where n: "forward m training nz idx None = Inr (Logits3 lg, None)"
      and d: "dim0 lg = rows2 idx" "dim1 lg = cols2 idx" "dim2 lg = vocab_size c"
      and s: "\<And>tg. tokens_ok c tg \<and> rows2 tg = rows2 idx \<and> cols2 tg = cols2 idx \<Longrightarrow>
                forward m training nz idx (Some tg) =
                  Inr (Logits2 (view_BT_C lg),
                       Some (if rows2 idx * cols2 idx = 0 then LossNaN
                             else Loss ((\<Sum>n<rows2 idx * cols2 idx.
                                    - ln (softmax_row (elem2 (view_BT_C lg) n) (vocab_size c)
                                           (nat (elem2 tg (n div cols2 idx) (n mod cols2 idx)))))
                                  / real (rows2 idx * cols2 idx))))"
    by blast
  have r: "rows2 (view_BT_C lg) = rows2 idx * block_size c" "cols2 (view_BT_C lg) = vocab_size c"
    using d e by (simp_all add: view_BT_C_def)
  have t: "\<exists>loss. forward m training nz idx (Some tg) = Inr (Logits2 (view_BT_C lg), Some loss)
                      \<and> rows2 (view_BT_C lg) = rows2 idx * block_size c
                      \<and> cols2 (view_BT_C lg) = vocab_size c"
    if "tokens_ok c tg \<and> rows2 tg = rows2 idx \<and> cols2 tg = block_size c" for tg
  proof -
    have "tokens_ok c tg \<and> rows2 tg = rows2 idx \<and> cols2 tg = cols2 idx"
      using that e by simp
    from s [OF this] show ?thesis using r by simp
  qed
  show "\<exists>lg. forward m training nz idx None = Inr (Logits3 lg, None)
              \<and> dim0 lg = rows2 idx \<and> dim1 lg = block_size c \<and> dim2 lg = vocab_size c
              \<and> (\<forall>tg. tokens_ok c tg \<and> rows2 tg = rows2 idx \<and> cols2 tg = block_size c \<longrightarrow>
                   (\<exists>loss. forward m training nz idx (Some tg)
                              = Inr (Logits2 (view_BT_C lg), Some loss)
                      \<and> rows2 (view_BT_C lg) = rows2 idx * block_size c
                      \<and> cols2 (view_BT_C lg) = vocab_size c))"
    using n d e t by (intro exI [of _ lg]) simp
next
  assume "cols2 idx = block_size c + 1"
  then have "block_size c < cols2 idx" by simp
  then show "\<forall>tg. \<exists>err. forward m training nz idx tg = Inl err
               \<and> (err = IndexError \<or> err = RuntimeError)
               \<and> (0 < block_size c \<and> 0 < vocab_size c \<longrightarrow> err = IndexError)"
    using forward_overflow [OF assms, of idx training nz] by blast
qed

theorem context_overflow_boundary_witness:
  "\<exists>m. GPTLanguageModel_init (train_config 65) (\<lambda>_ _ _. 0) (\<lambda>_ _ _. 0) = Inr m
      \<and> (\<exists>lg. forward m True (\<lambda>_. keep_all) (zeros2 64 256) None = Inr (Logits3 lg, None)
            \<and> dim0 lg = 64 \<and> dim1 lg = 256 \<and> dim2 lg = 65
            \<and> (\<exists>loss. forward m True (\<lambda>_. keep_all) (zeros2 64 256) (Some (zeros2 64 256))
                         = Inr (Logits2 (view_BT_C lg), Some loss)
                  \<and> rows2 (view_BT_C lg) = 16384 \<and> cols2 (view_BT_C lg) = 65))
      \<and> forward m True (\<lambda>_. keep_all) (zeros2 64 257) None = Inl IndexError"
proof -
  obtain m where m: "GPTLanguageModel_init (train_config 65) (\<lambda>_ _ _. 0) (\<lambda>_ _ _. 0) = Inr m"
    and ok: "gpt_ok (train_config 65) m"
    using train_config_init by blast
  have t: "tokens_ok (train_config 65) (zeros2 64 256)"
    by (rule tokens_ok_zeros2) (simp add: train_config_def)
  have h: "0 < n_head (train_config 65) \<and> n_head (train_config 65) \<le> n_embd (train_config 65)
      \<and> tokens_ok (train_config 65) (zeros2 64 256)
      \<and> cols2 (zeros2 64 256) = block_size (train_config 65)"
    using t by (simp add: train_config_def zeros2_def)
  note e1 = context_overflow_boundary [OF ok, of "zeros2 64 256" True "\<lambda>_. keep_all",
      THEN conjunct1, THEN mp, OF h]
  then obtain lg
    where n: "forward m True (\<lambda>_. keep_all) (zeros2 64 256) None = Inr (Logits3 lg, None)"
      and d: "dim0 lg = rows2 (zeros2 64 256)" "dim1 lg = block_size (train_config 65)"
        "dim2 lg = vocab_size (train_config 65)"
      and s: "\<forall>tg. tokens_ok (train_config 65) tg \<and> rows2 tg = rows2 (zeros2 64 256)
                  \<and> cols2 tg = block_size (train_config 65) \<longrightarrow>
                   (\<exists>loss. forward m True (\<lambda>_. keep_all) (zeros2 64 256) (Some tg)
                              = Inr (Logits2 (view_BT_C lg), Some loss)
                      \<and> rows2 (view_BT_C lg) = rows2 (zeros2 64 256) * block_size (train_config 65)
                      \<and> cols2 (view_BT_C lg) = vocab_size (train_config 65))"
    by blast
  have tt: "tokens_ok (train_config 65) (zeros2 64 256) \<and> rows2 (zeros2 64 256) = rows2 (zeros2 64 256)
      \<and> cols2 (zeros2 64 256) = block_size (train_config 65)"
    using t by (simp add: train_config_def zeros2_def)
  from s tt obtain loss
    where l: "forward m True (\<lambda>_. keep_all) (zeros2 64 256) (Some (zeros2 64 256))
                = Inr (Logits2 (view_BT_C lg), Some loss)"
      "rows2 (view_BT_C lg) = rows2 (zeros2 64 256) * block_size (train_config 65)"
      "cols2 (view_BT_C lg) = vocab_size (train_config 65)"
    by blast
  have v: "dim0 lg = 64" "dim1 lg = 256" "dim2 lg = 65"
    "rows2 (view_BT_C lg) = 16384" "cols2 (view_BT_C lg) = 65"
    using d l(2,3) by (simp_all add: train_config_def zeros2_def)
  have h2: "cols2 (zeros2 64 257) = block_size (train_config 65) + 1"
    by (simp add: train_config_def zeros2_def)
  note e2 = context_overflow_boundary [OF ok, of "zeros2 64 257" True "\<lambda>_. keep_all",
      THEN conjunct2, THEN mp, OF h2]
  then obtain err where "forward m True (\<lambda>_. keep_all) (zeros2 64 257) None = Inl err"
    "0 < block_size (train_config 65) \<and> 0 < vocab_size (train_config 65) \<longrightarrow> err = IndexError"
    by blast
  then have o: "forward m True (\<lambda>_. keep_all) (zeros2 64 257) None = Inl IndexError"
    by (simp add: train_config_def)
  show ?thesis
    using m n v l(1) o by blast
qed

text \<open>The claim as stated fails on the call of line 206: on a batch of shape (64, 256) with
  targets the forward pass succeeds, and the logits that come back have shape (16384, 65)
  and not (64, 256, 65).\<close>

theorem context_overflow_boundary_counterexample:
  "\<exists>m. GPTLanguageModel_init (train_config 65) (\<lambda>_ _ _. 0) (\<lambda>_ _ _. 0) = Inr m
      \<and> cols2 (zeros2 64 256) = block_size (train_config 65)
      \<and> (\<exists>l2 lo. forward m True (\<lambda>_. keep_all) (zeros2 64 256) (Some (zeros2 64 256))
                    = Inr (Logits2 l2, lo) \<and> rows2 l2 = 16384 \<and> cols2 l2 = 65)
      \<and> \<not> (\<exists>lg lo. forward m True (\<lambda>_. keep_all) (zeros2 64 256) (Some (zeros2 64 256))
                    = Inr (Logits3 lg, lo))"
proof -
  obtain m where m: "GPTLanguageModel_init (train_config 65) (\<lambda>_ _ _. 0) (\<lambda>_ _ _. 0) = Inr m"
    and ok: "gpt_ok (train_config 65) m"
    using train_config_init by blast
  have t: "tokens_ok (train_config 65) (zeros2 64 256)"
    by (rule tokens_ok_zeros2) (simp add: train_config_def)
  have c: "0 < n_head (train_config 65)" "n_head (train_config 65) \<le> n_embd (train_config 65)"
    "cols2 (zeros2 64 256) \<le> block_size (train_config 65)"
    by (simp_all add: train_config_def zeros2_def)
  from forward_returns [OF ok c(1,2) t c(3), of True "\<lambda>_. keep_all"] t obtain lg lo
    where d: "dim0 lg = rows2 (zeros2 64 256)" "dim1 lg = cols2 (zeros2 64 256)"
        "dim2 lg = vocab_size (train_config 65)"
      and s: "forward m True (\<lambda>_. keep_all) (zeros2 64 256) (Some (zeros2 64 256))
                = Inr (Logits2 (view_BT_C lg), lo)"
    by blast
  have "rows2 (view_BT_C lg) = 16384" "cols2 (view_BT_C lg) = 65"
    using d by (simp_all add: view_BT_C_def zeros2_def train_config_def)
  with s have "\<exists>l2 lo. forward m True (\<lambda>_. keep_all) (zeros2 64 256) (Some (zeros2 64 256))
                    = Inr (Logits2 l2, lo) \<and> rows2 l2 = 16384 \<and> cols2 l2 = 65"
    by blast
  moreover have "\<not> (\<exists>lg lo. forward m True (\<lambda>_. keep_all) (zeros2 64 256) (Some (zeros2 64 256))
                    = Inr (Logits3 lg, lo))"
    using s by simp
  moreover have "cols2 (zeros2 64 256) = block_size (train_config 65)"
    by (simp add: train_config_def zeros2_def)
  ultimately show ?thesis using m by blast
qed

subsection \<open>Generation\<close>

lemma bind_err_Inr_right [simp]: "bind_err r Inr = r"
  by (cases r) simp_all

lemma bind_err_unit: "(\<And>v. f v = Inr v) \<Longrightarrow> bind_err r f = r"
  by (cases r) simp_all

lemma bind_err_assoc: "bind_err (bind_err r f) g = bind_err r (\<lambda>v. bind_err (f v) g)"
  by (cases r) simp_all

lemma sample_scan_bound: "0 < r \<Longrightarrow> sample_scan p u acc k r < k + r"
proof (induction r arbitrary: acc k)
  case 0
  then show ?case by simp
next
  case (Suc r)
  show ?case
  proof (cases "r = 0 \<or> u < acc + p k")
    case True
    then show ?thesis by auto
  next
    case False
    then have "0 < r" by simp
    from Suc.IH [OF this, of "acc + p k" "Suc k"] False show ?thesis by simp
  qed
qed

lemma crop_last_shape:
  "rows2 (crop_last n idx) = rows2 idx"
  "0 < n \<Longrightarrow> cols2 (crop_last n idx) = min (cols2 idx) n"
  by (auto simp: crop_last_def Let_def)

lemma tokens_ok_crop_last: "tokens_ok c idx \<Longrightarrow> tokens_ok c (crop_last n idx)"
proof -
  assume a: "tokens_ok c idx"
  have "0 \<le> elem2 (crop_last n idx) b t \<and> elem2 (crop_last n idx) b t < int (vocab_size c)"
    if "b < rows2 (crop_last n idx)" "t < cols2 (crop_last n idx)" for b t
  proof -
    have "b < rows2 idx" using that(1) by (simp add: crop_last_def Let_def)
    moreover have "(if n = 0 then 0 else cols2 idx - n) + t < cols2 idx"
      using that(2) by (auto simp: crop_last_def Let_def)
    ultimately show ?thesis
      using tokens_ok_entry [OF a, of b "(if n = 0 then 0 else cols2 idx - n) + t"]
      by (simp add: crop_last_def Let_def)
  qed
  then show ?thesis by (simp add: tokens_ok_def)
qed

lemma generate_step_ok:
  assumes "gpt_ok c m" "0 < n_head c" "n_head c \<le> n_embd c"
    and "0 < block_size c" "0 < vocab_size c"
    and "tokens_ok c idx" "0 < cols2 idx"
  shows "\<exists>lg out. forward m training nz (crop_last (block_size c) idx) None = Inr (Logits3 lg, None)
           \<and> dim1 lg = min (cols2 idx) (block_size c)
           \<and> generate_step c m training nz u idx = Inr out
           \<and> rows2 out = rows2 idx \<and> cols2 out = cols2 idx + 1
           \<and> (\<forall>b t. t < cols2 idx \<longrightarrow> elem2 out b t = elem2 idx b t)
           \<and> (\<forall>b. elem2 out b (cols2 idx) =
                  int (sample_scan (softmax_row (elem3 lg b (dim1 lg - 1)) (vocab_size c))
                         (u b) 0 0 (vocab_size c)))"
proof -
  let ?ic = "crop_last (block_size c) idx"
  have t: "tokens_ok c ?ic" using assms(6) by (rule tokens_ok_crop_last)
  have sh: "rows2 ?ic = rows2 idx" "cols2 ?ic = min (cols2 idx) (block_size c)"
    using assms(4) by (simp_all add: crop_last_shape)
  have le: "cols2 ?ic \<le> block_size c" using sh by simp
  from forward_returns [OF assms(1,2,3) t le, of training nz] obtain lg
    where f: "forward m training nz ?ic None = Inr (Logits3 lg, None)"
      and d: "dim0 lg = rows2 ?ic" "dim1 lg = cols2 ?ic" "dim2 lg = vocab_size c"
    by blast
  have pos: "0 < dim1 lg" using d sh assms(4,7) by simp
  define out where "out =
    \<lparr>rows2 = rows2 idx, cols2 = cols2 idx + 1,
     elem2 = \<lambda>b t. if t < cols2 idx then elem2 idx b t
                     else int (sample_scan (softmax_row (elem3 lg b (dim1 lg - 1)) (vocab_size c))
                                (u b) 0 0 (vocab_size c))\<rparr>"
  have g: "generate_step c m training nz u idx = Inr out"
    using f d sh pos assms(5)
    by (simp add: generate_step_def Let_def last_step_def softmax2_def multinomial_def
        cat_dim1_def out_def fun_eq_iff)
  show ?thesis
    using f d(2) sh(2) g by (intro exI [of _ lg] exI [of _ out]) (simp add: out_def)
qed

lemma generate_step_tokens:
  assumes "0 < vocab_size c" "tokens_ok c idx"
    and "rows2 out = rows2 idx" "cols2 out = cols2 idx + 1"
    and "\<forall>b t. t < cols2 idx \<longrightarrow> elem2 out b t = elem2 idx b t"
    and "\<forall>b. elem2 out b (cols2 idx) = int (sample_scan (p' b) (u b) 0 0 (vocab_size c))"
  shows "tokens_ok c out"
proof -
  have "0 \<le> elem2 out b t \<and> elem2 out b t < int (vocab_size c)"
    if "b < rows2 out" "t < cols2 out" for b t
  proof (cases "t < cols2 idx")
    case True
    then show ?thesis
      using tokens_ok_entry [OF assms(2), of b t] that assms(3,5) by simp
  next
    case False
    then have e: "t = cols2 idx" using that(2) assms(4) by simp
    have "sample_scan (p' b) (u b) 0 0 (vocab_size c) < 0 + vocab_size c"
      using assms(1) by (rule sample_scan_bound)
    then show ?thesis using assms(6) e by simp
  qed
  then show ?thesis by (simp add: tokens_ok_def)
qed


lemma generate_loop_snoc:
  "generate_loop c m training nz u k (Suc n) idx =
     bind_err (generate_loop c m training nz u k n idx)
       (generate_step c m training (nz (k + n)) (u (k + n)))"
proof (induction n arbitrary: k idx)
  case 0
  show ?case by (simp add: bind_err_unit)
next
  case (Suc n)
  have "generate_loop c m training nz u k (Suc (Suc n)) idx =
      bind_err (generate_step c m training (nz k) (u k) idx)
        (generate_loop c m training nz u (Suc k) (Suc n))"
    by simp
  also have "\<dots> = bind_err (generate_step c m training (nz k) (u k) idx)
        (\<lambda>i. bind_err (generate_loop c m training nz u (Suc k) n i)
                (generate_step c m training (nz (Suc k + n)) (u (Suc k + n))))"
    by (rule arg_cong [where f = "bind_err (generate_step c m training (nz k) (u k) idx)"])
      (rule ext, rule Suc.IH)
  also have "\<dots> = bind_err (generate_loop c m training nz u k (Suc n) idx)
        (generate_step c m training (nz (k + Suc n)) (u (k + Suc n)))"
    by (simp add: bind_err_assoc)
  finally show ?case .
qed

lemma generate_loop_ok:
  assumes "gpt_ok c m" "0 < n_head c" "n_head c \<le> n_embd c"
    and "0 < block_size c" "0 < vocab_size c"
    and "tokens_ok c idx" "0 < cols2 idx"
  shows "\<exists>out. generate_loop c m training nz u k n idx = Inr out
           \<and> rows2 out = rows2 idx \<and> cols2 out = cols2 idx + n
           \<and> (\<forall>b t. t < cols2 idx \<longrightarrow> elem2 out b t = elem2 idx b t)
           \<and> tokens_ok c out"
  using assms(6,7)
proof (induction n arbitrary: k idx)
  case 0
  then show ?case by simp
next
  case (Suc n)
  from generate_step_ok [OF assms(1-5) Suc.prems, of training "nz k" "u k"]
  obtain lg :: "real tensor3" and idx1
    where s: "generate_step c m training (nz k) (u k) idx = Inr idx1"
      "rows2 idx1 = rows2 idx" "cols2 idx1 = cols2 idx + 1"
      "\<forall>b t. t < cols2 idx \<longrightarrow> elem2 idx1 b t = elem2 idx b t"
      "\<forall>b. elem2 idx1 b (cols2 idx) =
          int (sample_scan (softmax_row (elem3 lg b (dim1 lg - 1)) (vocab_size c))
                 (u k b) 0 0 (vocab_size c))"
    by blast
  have t1: "tokens_ok c idx1"
    using generate_step_tokens [where p' = "\<lambda>b. softmax_row (elem3 lg b (dim1 lg - 1)) (vocab_size c)"
        and u = "u k", OF assms(5) Suc.prems(1) s(2,3,4)] s(5) by simp
  have p1: "0 < cols2 idx1" using s(3) by simp
  from Suc.IH [OF t1 p1, of "Suc k"] obtain out
    where o: "generate_loop c m training nz u (Suc k) n idx1 = Inr out"
      "rows2 out = rows2 idx1" "cols2 out = cols2 idx1 + n"
      "\<forall>b t. t < cols2 idx1 \<longrightarrow> elem2 out b t = elem2 idx1 b t"
      "tokens_ok c out"
    by blast
  have "elem2 out b t = elem2 idx b t" if "t < cols2 idx" for b t
    using that o(4) s(3,4) by simp
  then show ?case
    using s(1,2,3) o(1,2,3,5) by simp
qed

text \<open>
  C2, as the code has it. For every starting batch of tokens of shape (B,T0) with
  \<open>T0 \<ge> 1\<close> and every \<open>n\<close>, \<^verbatim>\<open>generate\<close> returns a batch of shape (B, T0 + n) whose first
  \<open>T0\<close> columns are the input and whose other entries are token ids below \<open>vocab_size\<close>. It
  makes \<open>n\<close> passes: pass \<open>k\<close> starts from the result \<open>cur\<close> of \<open>k\<close> passes, runs the forward
  pass without targets on the last \<open>block_size\<close> columns of \<open>cur\<close>, takes the logits of the
  last time step, applies softmax, samples one token for each row and appends it
  to \<open>cur\<close>.
\<close>

theorem generate_contract:
  assumes "gpt_ok c m" "0 < n_head c" "n_head c \<le> n_embd c"
    and "0 < block_size c" "0 < vocab_size c"
    and "tokens_ok c idx" "1 \<le> cols2 idx"
  shows "\<exists>out. generate c m training nz u idx n = Inr out
       \<and> rows2 out = rows2 idx \<and> cols2 out = cols2 idx + n
       \<and> (\<forall>b t. b < rows2 idx \<and> t < cols2 idx \<longrightarrow> elem2 out b t = elem2 idx b t)
       \<and> (\<forall>b t. b < rows2 idx \<and> cols2 idx \<le> t \<and> t < cols2 idx + n
             \<longrightarrow> 0 \<le> elem2 out b t \<and> elem2 out b t < int (vocab_size c))
       \<and> (\<forall>k<n. \<exists>cur lg nxt.
              generate c m training nz u idx k = Inr cur \<and> cols2 cur = cols2 idx + k
            \<and> forward m training (nz k) (crop_last (block_size c) cur) None
                 = Inr (Logits3 lg, None)
            \<and> dim1 lg = min (cols2 cur) (block_size c)
            \<and> generate c m training nz u idx (Suc k) = Inr nxt
            \<and> (\<forall>b t. t < cols2 cur \<longrightarrow> elem2 nxt b t = elem2 cur b t)
            \<and> (\<forall>b. elem2 nxt b (cols2 cur) =
                   int (sample_scan (softmax_row (elem3 lg b (dim1 lg - 1)) (vocab_size c))
                          (u k b) 0 0 (vocab_size c))))"
proof -
  have pos: "0 < cols2 idx" using assms(7) by simp
  note loop = generate_loop_ok [OF assms(1-6) pos, of training nz u 0]
  from loop [of n] obtain out
    where o: "generate_loop c m training nz u 0 n idx = Inr out"
      "rows2 out = rows2 idx" "cols2 out = cols2 idx + n"
      "\<forall>b t. t < cols2 idx \<longrightarrow> elem2 out b t = elem2 idx b t"
      "tokens_ok c out"
    by blast
  have rng: "0 \<le> elem2 out b t \<and> elem2 out b t < int (vocab_size c)"
    if "b < rows2 idx" "t < cols2 idx + n" for b t
    using tokens_ok_entry [OF o(5), of b t] that o(2,3) by simp
  have iter: "\<exists>cur lg nxt.
              generate c m training nz u idx k = Inr cur \<and> cols2 cur = cols2 idx + k
            \<and> forward m training (nz k) (crop_last (block_size c) cur) None
                 = Inr (Logits3 lg, None)
            \<and> dim1 lg = min (cols2 cur) (block_size c)
            \<and> generate c m training nz u idx (Suc k) = Inr nxt
            \<and> (\<forall>b t. t < cols2 cur \<longrightarrow> elem2 nxt b t = elem2 cur b t)
            \<and> (\<forall>b. elem2 nxt b (cols2 cur) =
                   int (sample_scan (softmax_row (elem3 lg b (dim1 lg - 1)) (vocab_size c))
                          (u k b) 0 0 (vocab_size c)))" for k
  proof -
    from loop [of k] obtain cur
      where cur: "generate_loop c m training nz u 0 k idx = Inr cur"
        "cols2 cur = cols2 idx + k" "tokens_ok c cur"
      by blast
    have pc: "0 < cols2 cur" using cur(2) pos by simp
    from generate_step_ok [OF assms(1-5) cur(3) pc, of training "nz k" "u k"] obtain lg nxt
      where s: "forward m training (nz k) (crop_last (block_size c) cur) None
                  = Inr (Logits3 lg, None)"
        "dim1 lg = min (cols2 cur) (block_size c)"
        "generate_step c m training (nz k) (u k) cur = Inr nxt"
        "\<forall>b t. t < cols2 cur \<longrightarrow> elem2 nxt b t = elem2 cur b t"
        "\<forall>b. elem2 nxt b (cols2 cur) =
            int (sample_scan (softmax_row (elem3 lg b (dim1 lg - 1)) (vocab_size c))
                   (u k b) 0 0 (vocab_size c))"
      by blast
    have "generate_loop c m training nz u 0 (Suc k) idx = Inr nxt"
      using generate_loop_snoc [of c m training nz u 0 k idx] cur(1) s(3) by simp
    then show ?thesis
      using cur(1,2) s(1,2,4,5) unfolding generate_def by blast
  qed
  show ?thesis
    unfolding generate_def using o(1,2,3,4) rng iter
    by (intro exI [of _ out]) (simp add: generate_def)
qed


theorem generate_contract_witness:
  "\<exists>m out. GPTLanguageModel_init (train_config 65) (\<lambda>_ _ _. 0) (\<lambda>_ _ _. 0) = Inr m
      \<and> generate (train_config 65) m True (\<lambda>_ _. keep_all) (\<lambda>_ _. 1 / 2) (zeros2 1 1) 5 = Inr out
      \<and> rows2 out = 1 \<and> cols2 out = 6 \<and> elem2 out 0 0 = 0
      \<and> 0 \<le> elem2 out 0 5 \<and> elem2 out 0 5 < 65"
proof -
  obtain m where m: "GPTLanguageModel_init (train_config 65) (\<lambda>_ _ _. 0) (\<lambda>_ _ _. 0) = Inr m"
    and ok: "gpt_ok (train_config 65) m"
    using train_config_init by blast
  have t: "tokens_ok (train_config 65) (zeros2 1 1)"
    by (rule tokens_ok_zeros2) (simp add: train_config_def)
  have c: "0 < n_head (train_config 65)" "n_head (train_config 65) \<le> n_embd (train_config 65)"
    "0 < block_size (train_config 65)" "0 < vocab_size (train_config 65)"
    "1 \<le> cols2 (zeros2 1 1)"
    by (simp_all add: train_config_def zeros2_def)
  from generate_contract [OF ok c(1,2,3,4) t c(5), of True "\<lambda>_ _. keep_all" "\<lambda>_ _. 1 / 2" 5]
  obtain out
    where o: "generate (train_config 65) m True (\<lambda>_ _. keep_all) (\<lambda>_ _. 1 / 2) (zeros2 1 1) 5
                = Inr out"
      "rows2 out = rows2 (zeros2 1 1)" "cols2 out = cols2 (zeros2 1 1) + 5"
      "\<forall>b t. b < rows2 (zeros2 1 1) \<and> t < cols2 (zeros2 1 1)
          \<longrightarrow> elem2 out b t = elem2 (zeros2 1 1) b t"
      "\<forall>b t. b < rows2 (zeros2 1 1) \<and> cols2 (zeros2 1 1) \<le> t \<and> t < cols2 (zeros2 1 1) + 5
             \<longrightarrow> 0 \<le> elem2 out b t \<and> elem2 out b t < int (vocab_size (train_config 65))"
    by blast
  have "rows2 out = 1" "cols2 out = 6" using o(2,3) by (simp_all add: zeros2_def)
  moreover have "elem2 out 0 0 = 0" using o(4) by (simp add: zeros2_def)
  moreover have "0 \<le> elem2 out 0 5 \<and> elem2 out 0 5 < 65"
    using o(5) by (simp add: zeros2_def train_config_def)
  ultimately show ?thesis using m o(1) by blast
qed

text \<open>The claim as stated fails on a context with no token: the time axis of the logits is
  empty and \<^verbatim>\<open>logits[:, -1, :]\<close> raises.\<close>

theorem generate_contract_counterexample:
  "\<exists>m. GPTLanguageModel_init (train_config 65) (\<lambda>_ _ _. 0) (\<lambda>_ _ _. 0) = Inr m
      \<and> generate (train_config 65) m True (\<lambda>_ _. keep_all) (\<lambda>_ _. 1 / 2) (zeros2 1 0) 1
          = Inl IndexError"
proof -
  obtain m where m: "GPTLanguageModel_init (train_config 65) (\<lambda>_ _ _. 0) (\<lambda>_ _ _. 0) = Inr m"
    and ok: "gpt_ok (train_config 65) m"
    using train_config_init by blast
  let ?ic = "crop_last (block_size (train_config 65)) (zeros2 1 0)"
  have t: "tokens_ok (train_config 65) ?ic"
    by (simp add: tokens_ok_def crop_last_def zeros2_def)
  have c: "0 < n_head (train_config 65)" "n_head (train_config 65) \<le> n_embd (train_config 65)"
    "cols2 ?ic \<le> block_size (train_config 65)"
    by (simp_all add: train_config_def zeros2_def crop_last_def)
  from forward_returns [OF ok c(1,2) t c(3), of True "\<lambda>_. keep_all"] obtain lg
    where f: "forward m True (\<lambda>_. keep_all) ?ic None = Inr (Logits3 lg, None)"
      and d: "dim1 lg = cols2 ?ic"
    by blast
  have "dim1 lg = 0" using d by (simp add: crop_last_def zeros2_def train_config_def)
  then have "generate_step (train_config 65) m True (\<lambda>_. keep_all) (\<lambda>_. 1 / 2) (zeros2 1 0)
      = Inl IndexError"
    using f by (simp add: generate_step_def Let_def last_step_def)
  then show ?thesis
    using m by (simp add: generate_def)
qed

end
